theory Spec2Isabelle
  imports Complex_Main
begin

section \<open>Hashstack V0 interest rates: the embedding\<close>

text \<open>
  The source is \<^verbatim>\<open>handlers/loan_states/hashtack_v0/interest_rate.py\<close>, the class
  \<^verbatim>\<open>HashstackV0InterestRate\<close>. Python integers are unbounded, so block numbers and
  timestamps are \<^typ>\<open>int\<close>.
\<close>

subsection \<open>Python built-ins the source calls\<close>

text \<open>
  The exceptions the modelled code can raise: \<^verbatim>\<open>event["data"][i]\<close> past the end of the
  list raises IndexError, \<^verbatim>\<open>int(s, 16)\<close> on a string that is no hexadecimal literal
  raises ValueError, and the operations of \<^verbatim>\<open>decimal\<close> raise the signals the default
  context traps: Overflow, DivisionByZero and InvalidOperation.
\<close>

datatype py_error = IndexError | ValueError | Overflow | DivisionByZero | InvalidOperation

text \<open>
  A block bound as \<^verbatim>\<open>_set_events\<close> may receive it: the method tests
  \<^verbatim>\<open>isinstance(start_block, int)\<close>, so the argument is any Python object.
\<close>

datatype pyobj = PyInt int | PyStr string | PyNone

fun is_int :: "pyobj \<Rightarrow> bool" where
  "is_int (PyInt n) = True"
| "is_int (PyStr s) = False"
| "is_int PyNone = False"

text \<open>List indexing with a non-negative index, \<^verbatim>\<open>xs[i]\<close>.\<close>

definition getitem :: "'a list \<Rightarrow> nat \<Rightarrow> py_error + 'a" where
  "getitem xs i = (if i < length xs then Inr (xs ! i) else Inl IndexError)"

text \<open>
  A Python string is a list of characters, each a code point below 256.

  \<^verbatim>\<open>int(s, 16)\<close> on such a string: surrounding whitespace is skipped, a sign may come
  first, then an optional \<^verbatim>\<open>0x\<close> or \<^verbatim>\<open>0X\<close> (after which one underscore is allowed),
  then hexadecimal digits with single underscores between them. The whitespace that
  \<^verbatim>\<open>int\<close> skips is tab, line feed, vertical tab, form feed, carriage return and space
  (the ASCII characters the parser itself skips) and, of the other code points, those
  that Unicode classes as whitespace, which are first replaced by a space: below 256
  these are U+0085 and U+00A0. The separators U+001C to U+001F are not skipped.
\<close>

definition is_space :: "char \<Rightarrow> bool" where
  "is_space c =
     (let n = (of_char c :: nat) in (9 \<le> n \<and> n \<le> 13) \<or> n = 32 \<or> n = 133 \<or> n = 160)"

definition strip :: "string \<Rightarrow> string" where
  "strip s = rev (dropWhile is_space (rev (dropWhile is_space s)))"

definition hex_digit :: "char \<Rightarrow> nat option" where
  "hex_digit c =
     (let n = (of_char c :: nat)
      in if 48 \<le> n \<and> n \<le> 57 then Some (n - 48)
         else if 97 \<le> n \<and> n \<le> 102 then Some (n - 87)
         else if 65 \<le> n \<and> n \<le> 70 then Some (n - 55)
         else None)"

fun hex_tail :: "nat \<Rightarrow> string \<Rightarrow> nat option" where
  "hex_tail acc [] = Some acc"
| "hex_tail acc (c # cs) =
     (if c = CHR ''_'' then
        (case cs of
           [] \<Rightarrow> None
         | c' # cs' \<Rightarrow>
             (case hex_digit c' of None \<Rightarrow> None | Some d \<Rightarrow> hex_tail (16 * acc + d) cs'))
      else (case hex_digit c of None \<Rightarrow> None | Some d \<Rightarrow> hex_tail (16 * acc + d) cs))"

definition hex_number :: "string \<Rightarrow> nat option" where
  "hex_number s =
     (case s of
        [] \<Rightarrow> None
      | c # cs \<Rightarrow> (case hex_digit c of None \<Rightarrow> None | Some d \<Rightarrow> hex_tail d cs))"

definition int_base16 :: "string \<Rightarrow> py_error + int" where
  "int_base16 s =
     (let t = strip s;
          (neg, u) =
            (case t of
               [] \<Rightarrow> (False, t)
             | c # r \<Rightarrow>
                 if c = CHR ''-'' then (True, r)
                 else if c = CHR ''+'' then (False, r)
                 else (False, t));
          v =
            (case u of
               c0 # c1 # r \<Rightarrow>
                 if c0 = CHR ''0'' \<and> (c1 = CHR ''x'' \<or> c1 = CHR ''X'')
                 then (case r of c2 # r' \<Rightarrow> if c2 = CHR ''_'' then r' else r | [] \<Rightarrow> r)
                 else u
             | _ \<Rightarrow> u)
      in case hex_number v of
           None \<Rightarrow> Inl ValueError
         | Some n \<Rightarrow> Inr (if neg then - int n else int n))"

subsection \<open>Decimal arithmetic\<close>

text \<open>
  A \<^verbatim>\<open>decimal.Decimal\<close> is modelled by its value, a rational. Construction from an
  integer or a literal is exact. Every arithmetic operation computes the exact result
  and fits it to the default context, which the source never changes: precision 28,
  rounding ties to even, \<^verbatim>\<open>Emax = 999999\<close>, \<^verbatim>\<open>Emin = -999999\<close>, with the signals
  Overflow, DivisionByZero and InvalidOperation trapped (they raise) and Underflow not
  trapped (the result is a subnormal number or zero).
\<close>

definition round_half_even :: "rat \<Rightarrow> int" where
  "round_half_even x =
     (let f = \<lfloor>x\<rfloor>; r = x - of_int f
      in if r < 1 / 2 then f else if 1 / 2 < r then f + 1 else if even f then f else f + 1)"

text \<open>The number of decimal digits of a positive integer.\<close>

function ndigits :: "int \<Rightarrow> int" where
  "ndigits n = (if n < 10 then 1 else 1 + ndigits (n div 10))"
  by pat_completeness auto
termination
  by (relation "measure nat") auto

declare ndigits.simps [simp del]

definition pow10 :: "int \<Rightarrow> rat" where
  "pow10 k = (if 0 \<le> k then 10 ^ nat k else 1 / 10 ^ nat (- k))"

text \<open>The exponent of the leading digit of a non-zero value: \<open>10^e \<le> |x| < 10^(e+1)\<close>.\<close>

definition adjusted :: "rat \<Rightarrow> int" where
  "adjusted x =
     (let (p, q) = quotient_of \<bar>x\<bar>;
          d = ndigits p - ndigits q
      in if pow10 d \<le> \<bar>x\<bar> then d else d - 1)"

definition PREC :: int where
  "PREC = 28"

definition EMAX :: int where
  "EMAX = 999999"

definition EMIN :: int where
  "EMIN = - 999999"

text \<open>The exponent of the smallest subnormal number, \<^verbatim>\<open>Context.Etiny()\<close>.\<close>

definition ETINY :: int where
  "ETINY = EMIN - (PREC - 1)"

text \<open>
  The exponent of the last digit the context keeps of a non-zero value: 28 significant
  digits, but no digit below \<open>10^Etiny\<close>.
\<close>

definition quantum :: "rat \<Rightarrow> int" where
  "quantum x = max (adjusted x - (PREC - 1)) ETINY"

text \<open>The exact value rounded to the digits the context keeps, ties to even.\<close>

definition round_to_context :: "rat \<Rightarrow> rat" where
  "round_to_context x =
     (if x = 0 then 0
      else of_int (round_half_even (x / pow10 (quantum x))) * pow10 (quantum x))"

text \<open>
  The result of an operation whose exact value is \<open>x\<close>: the rounded value, or Overflow
  when the exponent of its leading digit is above \<^verbatim>\<open>Emax\<close>.
\<close>

definition context_round :: "rat \<Rightarrow> py_error + rat" where
  "context_round x =
     (let r = round_to_context x
      in if r \<noteq> 0 \<and> EMAX < adjusted r then Inl Overflow else Inr r)"

definition decimal_add :: "rat \<Rightarrow> rat \<Rightarrow> py_error + rat" where
  "decimal_add a b = context_round (a + b)"

definition decimal_mul :: "rat \<Rightarrow> rat \<Rightarrow> py_error + rat" where
  "decimal_mul a b = context_round (a * b)"

definition decimal_truediv :: "rat \<Rightarrow> rat \<Rightarrow> py_error + rat" where
  "decimal_truediv a b =
     (if b = 0 then (if a = 0 then Inl InvalidOperation else Inl DivisionByZero)
      else context_round (a / b))"

text \<open>\<^verbatim>\<open>SECONDS_IN_YEAR = Decimal(365 * 24 * 60 * 60)\<close>, line 18.\<close>

definition SECONDS_IN_YEAR :: rat where
  "SECONDS_IN_YEAR = of_int (365 * 24 * 60 * 60)"

text \<open>\<^verbatim>\<open>percents_decimals_shift = Decimal("0.0001")\<close>, line 75.\<close>

definition percents_decimals_shift :: rat where
  "percents_decimals_shift = 1 / 10000"

subsection \<open>Data model\<close>

text \<open>
  An event as the API returns it: a dictionary with the keys \<^verbatim>\<open>block_number\<close>,
  \<^verbatim>\<open>timestamp\<close>, \<^verbatim>\<open>key_name\<close> and \<^verbatim>\<open>data\<close>, the last a list of strings.
\<close>

record Event =
  block_number :: int
  timestamp :: int
  key_name :: string
  data :: "string list"

text \<open>\<^verbatim>\<open>HASHSTACK_ID = ProtocolIDs.HASHSTACK_V0.value\<close>, line 16: the one member used.\<close>

datatype ProtocolIDs = HASHSTACK_V0

definition HASHSTACK_ID :: ProtocolIDs where
  "HASHSTACK_ID = HASHSTACK_V0"

text \<open>
  Modelled from the spec: the persisted snapshot \<^verbatim>\<open>InterestRate\<close> of \<^verbatim>\<open>db.models\<close>,
  which is not among the sources. Per the data model it holds the protocol identifier,
  the block number, the two accumulator mappings frozen at emission time, and the
  timestamp of the last update. A mapping from token names is a total function.
\<close>

record InterestRate =
  block :: int
  snapshot_timestamp :: int
  collateral :: "string \<Rightarrow> rat"
  debt :: "string \<Rightarrow> rat"
  protocol_id :: ProtocolIDs

text \<open>
  Modelled from the spec: the accrual state \<^verbatim>\<open>InterestRateState\<close> of
  \<^verbatim>\<open>handlers.helpers\<close>, which is not among the sources. Its fields are those of the
  data model; in \<open>token_timestamps\<close> the value 0 means uninitialised.
\<close>

record InterestRateState =
  current_block :: int
  current_timestamp :: int
  token_timestamps :: "string \<Rightarrow> int"
  cumulative_collateral :: "string \<Rightarrow> rat"
  cumulative_debt :: "string \<Rightarrow> rat"

text \<open>
  Modelled from the spec: the constructor \<^verbatim>\<open>InterestRateState(current_block,
  last_block_data)\<close>. The state is seeded from a fresh zero state or from the last
  persisted snapshot. The spec does not say which timestamp a token resumes from, so
  that rule is the parameter \<open>resume_timestamps\<close>, a function of the snapshot.
\<close>

definition InterestRateState_init ::
  "(InterestRate \<Rightarrow> string \<Rightarrow> int) \<Rightarrow> int \<Rightarrow> InterestRate option \<Rightarrow> InterestRateState" where
  "InterestRateState_init resume_timestamps first_block last_data =
     (case last_data of
        None \<Rightarrow>
          \<lparr>current_block = first_block, current_timestamp = 0,
           token_timestamps = (\<lambda>_. 0),
           cumulative_collateral = (\<lambda>_. 0), cumulative_debt = (\<lambda>_. 0)\<rparr>
      | Some snap \<Rightarrow>
          \<lparr>current_block = first_block, current_timestamp = snapshot_timestamp snap,
           token_timestamps = resume_timestamps snap,
           cumulative_collateral = collateral snap, cumulative_debt = debt snap\<rparr>)"

text \<open>
  Modelled from the spec: \<^verbatim>\<open>get_seconds_passed(token_name)\<close>, the current timestamp
  minus the token's stored timestamp, as a Decimal.
\<close>

definition get_seconds_passed :: "InterestRateState \<Rightarrow> string \<Rightarrow> rat" where
  "get_seconds_passed st token_name =
     of_int (current_timestamp st - token_timestamps st token_name)"

text \<open>
  Modelled from the spec: \<^verbatim>\<open>update_state_cumulative_data(token_name, current_block,
  collateral_change, debt_change)\<close> adds the deltas to the token's accumulators (two
  Decimal additions), stores the current timestamp as the token's timestamp and
  advances the current block.
\<close>

definition update_state_cumulative_data ::
  "InterestRateState \<Rightarrow> string \<Rightarrow> int \<Rightarrow> rat \<Rightarrow> rat \<Rightarrow> py_error + InterestRateState" where
  "update_state_cumulative_data st token_name new_block collateral_change debt_change =
     (case decimal_add (cumulative_collateral st token_name) collateral_change of
        Inl err \<Rightarrow> Inl err
      | Inr new_collateral \<Rightarrow>
     (case decimal_add (cumulative_debt st token_name) debt_change of
        Inl err \<Rightarrow> Inl err
      | Inr new_debt \<Rightarrow>
          Inr (st\<lparr>cumulative_collateral :=
                     (cumulative_collateral st)(token_name := new_collateral),
                   cumulative_debt := (cumulative_debt st)(token_name := new_debt),
                   token_timestamps :=
                     (token_timestamps st)(token_name := current_timestamp st),
                   current_block := new_block\<rparr>)))"

text \<open>
  Modelled from the spec: \<^verbatim>\<open>build_interest_rate_model(protocol_id)\<close>, the snapshot
  builder, a projection of the state.
\<close>

definition build_interest_rate_model :: "InterestRateState \<Rightarrow> ProtocolIDs \<Rightarrow> InterestRate" where
  "build_interest_rate_model st pid =
     \<lparr>block = current_block st, snapshot_timestamp = current_timestamp st,
      collateral = cumulative_collateral st, debt = cumulative_debt st,
      protocol_id = pid\<rparr>"

text \<open>
  What \<^verbatim>\<open>api_connector.get_data\<close> returns: a list of events, or a dictionary that
  reports an error.
\<close>

datatype api_result = ResultList "Event list" | ResultDict "(string \<times> string) list"

text \<open>
  The object \<^verbatim>\<open>self\<close>. Besides the three attributes that \<^verbatim>\<open>__init__\<close> sets, the record
  keeps what the collaborators observe: the windows requested from the API, the lines
  logged and the batches written to the database, each in call order.
  \<open>events_over_attr\<close> is the attribute \<^verbatim>\<open>self._events_over\<close>.
\<close>

record HashstackV0InterestRate =
  last_block_data :: "InterestRate option"
  events :: "Event list"
  events_over_attr :: bool
  requests :: "(pyobj \<times> pyobj) list"
  logged :: "string list"
  written :: "InterestRate list list"

text \<open>\<^verbatim>\<open>__init__\<close>, lines 26-36, given the last record the database holds.\<close>

definition init :: "InterestRate option \<Rightarrow> HashstackV0InterestRate" where
  "init last_record =
     \<lparr>last_block_data = last_record, events = [], events_over_attr = False,
      requests = [], logged = [], written = []\<rparr>"

subsection \<open>Fetching events\<close>

text \<open>
  \<^verbatim>\<open>_set_events(start_block, end_block)\<close>, lines 38-57. After the \<^verbatim>\<open>isinstance\<close> test
  logs and clears, control falls through: the list is cleared again and the API is
  called with the same bounds.
\<close>

definition set_events ::
  "(pyobj \<Rightarrow> pyobj \<Rightarrow> api_result) \<Rightarrow> HashstackV0InterestRate \<Rightarrow> pyobj \<Rightarrow> pyobj
     \<Rightarrow> HashstackV0InterestRate" where
  "set_events get_data self start_block end_block =
     (let self1 =
            (if \<not> is_int start_block \<or> \<not> is_int end_block
             then self\<lparr>logged := logged self @ [''Invalid block numbers provided.''],
                       events := []\<rparr>
             else self);
          self2 = self1\<lparr>events := [], requests := requests self1 @ [(start_block, end_block)]\<rparr>
      in case get_data start_block end_block of
           ResultDict d \<Rightarrow>
             self2\<lparr>logged := logged self2 @
                      [''Error while fetching events: '' @
                       (case map_of d ''error'' of None \<Rightarrow> ''Unknown error'' | Some m \<Rightarrow> m)],
                    events := [], events_over_attr := True\<rparr>
         | ResultList evs \<Rightarrow> self2\<lparr>events := evs\<rparr>)"

subsection \<open>The fold over the events\<close>

text \<open>\<^verbatim>\<open>_add_block_data(block_data, interest_rate_entry)\<close>, lines 59-66.\<close>

definition add_block_data ::
  "HashstackV0InterestRate \<Rightarrow> InterestRate list \<Rightarrow> InterestRate
     \<Rightarrow> HashstackV0InterestRate \<times> InterestRate list" where
  "add_block_data self block_data interest_rate_entry =
     (self\<lparr>last_block_data := Some interest_rate_entry\<rparr>, block_data @ [interest_rate_entry])"

text \<open>
  The expression of lines 104 and 105,
  \<^verbatim>\<open>(apr * seconds_passed / SECONDS_IN_YEAR) * percents_decimals_shift\<close>: a
  multiplication, a division and a multiplication of Decimals, from left to right.
\<close>

definition accrual_delta :: "rat \<Rightarrow> rat \<Rightarrow> py_error + rat" where
  "accrual_delta apr_bps seconds_passed =
     (case decimal_mul apr_bps seconds_passed of
        Inl err \<Rightarrow> Inl err
      | Inr product \<Rightarrow>
     (case decimal_truediv product SECONDS_IN_YEAR of
        Inl err \<Rightarrow> Inl err
      | Inr per_year \<Rightarrow> decimal_mul per_year percents_decimals_shift))"

text \<open>
  The body of the \<^verbatim>\<open>for\<close> loop of \<^verbatim>\<open>calculate_interest_rates\<close>, lines 80-108, on one
  event. \<open>TOKEN_MAPPING\<close> is the lookup table of \<^verbatim>\<open>handler_tools.constants\<close>, a
  parameter here. The test of line 91 reads \<^verbatim>\<open>self.last_block_data\<close> after line 82 may
  have set it. The rate fields are read and decoded only on the accrual path, the
  borrow field first.
\<close>

definition process_event ::
  "(string \<rightharpoonup> string) \<Rightarrow> HashstackV0InterestRate \<Rightarrow> InterestRateState \<Rightarrow> InterestRate list
     \<Rightarrow> Event \<Rightarrow> py_error + (HashstackV0InterestRate \<times> InterestRateState \<times> InterestRate list)" where
  "process_event TOKEN_MAPPING self st blocks_data event =
     (let (self1, blocks1) =
            (if current_block st \<noteq> block_number event
             then add_block_data self blocks_data (build_interest_rate_model st HASHSTACK_ID)
             else (self, blocks_data))
      in case getitem (data event) 0 of
           Inl err \<Rightarrow> Inl err
         | Inr address \<Rightarrow>
             (let token_name = (case TOKEN_MAPPING address of None \<Rightarrow> [] | Some n \<Rightarrow> n)
              in if token_name = [] \<or> key_name event \<noteq> ''current_apr''
                 then Inr (self1, st\<lparr>current_block := block_number event\<rparr>, blocks1)
                 else if last_block_data self1 = None \<or> token_timestamps st token_name = 0
                 then Inr (self1,
                           st\<lparr>token_timestamps :=
                                (token_timestamps st)(token_name := timestamp event),
                              current_block := block_number event\<rparr>,
                           blocks1)
                 else
                   (let st1 = st\<lparr>current_timestamp := timestamp event\<rparr>;
                        seconds_passed = get_seconds_passed st1 token_name
                    in case getitem (data event) 1 of
                         Inl err \<Rightarrow> Inl err
                       | Inr field1 \<Rightarrow>
                     (case int_base16 field1 of
                         Inl err \<Rightarrow> Inl err
                       | Inr borrow \<Rightarrow>
                     (case getitem (data event) 2 of
                         Inl err \<Rightarrow> Inl err
                       | Inr field2 \<Rightarrow>
                     (case int_base16 field2 of
                         Inl err \<Rightarrow> Inl err
                       | Inr supply \<Rightarrow>
                         (let borrow_apr_bps = of_int borrow;
                              supply_apr_bps = of_int supply
                          in case accrual_delta supply_apr_bps seconds_passed of
                               Inl err \<Rightarrow> Inl err
                             | Inr current_collateral_change \<Rightarrow>
                           (case accrual_delta borrow_apr_bps seconds_passed of
                               Inl err \<Rightarrow> Inl err
                             | Inr current_debt_change \<Rightarrow>
                           (case update_state_cumulative_data st1 token_name
                                   (block_number event) current_collateral_change
                                   current_debt_change of
                               Inl err \<Rightarrow> Inl err
                             | Inr st2 \<Rightarrow> Inr (self1, st2, blocks1))))))))))"

text \<open>The \<^verbatim>\<open>for\<close> loop: an exception ends it.\<close>

fun fold_events ::
  "(string \<rightharpoonup> string) \<Rightarrow> HashstackV0InterestRate \<Rightarrow> InterestRateState \<Rightarrow> InterestRate list
     \<Rightarrow> Event list \<Rightarrow> py_error + (HashstackV0InterestRate \<times> InterestRateState \<times> InterestRate list)" where
  "fold_events TOKEN_MAPPING self st blocks_data [] = Inr (self, st, blocks_data)"
| "fold_events TOKEN_MAPPING self st blocks_data (event # rest) =
     (case process_event TOKEN_MAPPING self st blocks_data event of
        Inl err \<Rightarrow> Inl err
      | Inr (self', st', blocks') \<Rightarrow> fold_events TOKEN_MAPPING self' st' blocks' rest)"

text \<open>
  \<^verbatim>\<open>calculate_interest_rates\<close>, lines 68-112, with the local
  \<^verbatim>\<open>interest_rate_state\<close> as it stands at the final write kept in the result:
  \<open>calculate_with_state\<close> returns the object, that state and the list of snapshots.
\<close>

definition calculate_with_state ::
  "(string \<rightharpoonup> string) \<Rightarrow> (InterestRate \<Rightarrow> string \<Rightarrow> int) \<Rightarrow> HashstackV0InterestRate
     \<Rightarrow> py_error + (HashstackV0InterestRate \<times> InterestRateState option \<times> InterestRate list)" where
  "calculate_with_state TOKEN_MAPPING resume_timestamps self =
     (case events self of
        [] \<Rightarrow> Inr (self, None, [])
      | first_event # _ \<Rightarrow>
          (let interest_rate_state =
                 InterestRateState_init resume_timestamps (block_number first_event)
                   (last_block_data self)
           in case fold_events TOKEN_MAPPING self interest_rate_state [] (events self) of
                Inl err \<Rightarrow> Inl err
              | Inr (self1, st1, blocks1) \<Rightarrow>
                  (let (self2, blocks2) =
                         add_block_data self1 blocks1
                           (build_interest_rate_model st1 HASHSTACK_ID)
                   in Inr (self2, Some st1, blocks2))))"

definition calculate_interest_rates ::
  "(string \<rightharpoonup> string) \<Rightarrow> (InterestRate \<Rightarrow> string \<Rightarrow> int) \<Rightarrow> HashstackV0InterestRate
     \<Rightarrow> py_error + (HashstackV0InterestRate \<times> InterestRate list)" where
  "calculate_interest_rates TOKEN_MAPPING resume_timestamps self =
     (case calculate_with_state TOKEN_MAPPING resume_timestamps self of
        Inl err \<Rightarrow> Inl err
      | Inr (self', _, blocks_data) \<Rightarrow> Inr (self', blocks_data))"

subsection \<open>Pagination bounds\<close>

definition PAGINATION_SIZE :: int where
  "PAGINATION_SIZE = 1000"

text \<open>
  \<^verbatim>\<open>_get_blocks_bounds(start_block, end_block, latest_block)\<close>, lines 114-131. The first
  branch adds the previous end to the start and falls through to the second test; the
  \<^verbatim>\<open>else\<close> branch returns at once.
\<close>

definition get_blocks_bounds :: "int \<Rightarrow> int \<Rightarrow> int \<Rightarrow> int \<times> int" where
  "get_blocks_bounds start_block end_block latest_block =
     (if end_block + PAGINATION_SIZE < latest_block then
        (let start_block' = start_block + end_block
         in if start_block' + PAGINATION_SIZE \<le> latest_block
            then (start_block', end_block + PAGINATION_SIZE)
            else (start_block', latest_block))
      else (start_block, latest_block))"

subsection \<open>The orchestrator\<close>

text \<open>
  The \<^verbatim>\<open>while\<close> loop of \<^verbatim>\<open>run\<close>, lines 146-154, as a function of the loop's
  variables. The loop tests its local variable \<^verbatim>\<open>events_over\<close>, which only line 148
  sets; \<^verbatim>\<open>_set_events\<close> sets the attribute \<^verbatim>\<open>self._events_over\<close>, which the loop
  never reads. An exception raised by the fold ends the run. A run that never left the
  loop would be the value \<open>None\<close>.
\<close>

partial_function (option) run_loop ::
  "(pyobj \<Rightarrow> pyobj \<Rightarrow> api_result) \<Rightarrow> (string \<rightharpoonup> string) \<Rightarrow> (InterestRate \<Rightarrow> string \<Rightarrow> int)
     \<Rightarrow> int \<Rightarrow> bool \<Rightarrow> int \<Rightarrow> int \<Rightarrow> HashstackV0InterestRate
     \<Rightarrow> (py_error + HashstackV0InterestRate) option" where
  "run_loop get_data TOKEN_MAPPING resume_timestamps latest_block events_over start_block
      end_block self =
     (if events_over then Some (Inr self)
      else
        (let events_over' = (if latest_block \<le> end_block then True else events_over);
             self1 = set_events get_data self (PyInt start_block) (PyInt end_block);
             (start_block', end_block') = get_blocks_bounds start_block end_block latest_block
         in if events self1 = []
            then run_loop get_data TOKEN_MAPPING resume_timestamps latest_block events_over'
                   start_block' end_block' self1
            else
              (case calculate_interest_rates TOKEN_MAPPING resume_timestamps self1 of
                 Inl err \<Rightarrow> Some (Inl err)
               | Inr (self2, processed_data) \<Rightarrow>
                   run_loop get_data TOKEN_MAPPING resume_timestamps latest_block events_over'
                     start_block' end_block'
                     (self2\<lparr>written := written self2 @ [processed_data]\<rparr>))))"

text \<open>
  \<^verbatim>\<open>run\<close>, lines 133-154. \<open>latest_block\<close> is what \<^verbatim>\<open>NET.get_block_number()\<close>
  answered.
\<close>

definition run ::
  "(pyobj \<Rightarrow> pyobj \<Rightarrow> api_result) \<Rightarrow> (string \<rightharpoonup> string) \<Rightarrow> (InterestRate \<Rightarrow> string \<Rightarrow> int)
     \<Rightarrow> int \<Rightarrow> HashstackV0InterestRate \<Rightarrow> (py_error + HashstackV0InterestRate) option" where
  "run get_data TOKEN_MAPPING resume_timestamps latest_block self =
     (let start_block = (case last_block_data self of Some d \<Rightarrow> block d | None \<Rightarrow> 0)
      in if start_block = latest_block then Some (Inr self)
         else
           (let (start_block', end_block) =
                  get_blocks_bounds start_block (start_block + PAGINATION_SIZE) latest_block
            in run_loop get_data TOKEN_MAPPING resume_timestamps latest_block False
                 start_block' end_block self))"

subsection \<open>Notions the properties are stated with\<close>

text \<open>Lines 81-82: a snapshot is written when the event's block differs from the current one.\<close>

definition emit_on_transition ::
  "HashstackV0InterestRate \<Rightarrow> InterestRateState \<Rightarrow> InterestRate list \<Rightarrow> Event
     \<Rightarrow> HashstackV0InterestRate \<times> InterestRate list" where
  "emit_on_transition self st blocks_data event =
     (if current_block st \<noteq> block_number event
      then add_block_data self blocks_data (build_interest_rate_model st HASHSTACK_ID)
      else (self, blocks_data))"

text \<open>
  The part of the loop body that acts on the accrual state, lines 84-108, given whether
  \<^verbatim>\<open>self.last_block_data\<close> is empty at the test of line 91. The body is this effect
  together with the snapshot write of lines 81-82 (lemma \<open>process_event_effect\<close>).
\<close>

definition event_effect ::
  "(string \<rightharpoonup> string) \<Rightarrow> bool \<Rightarrow> InterestRateState \<Rightarrow> Event \<Rightarrow> py_error + InterestRateState" where
  "event_effect TOKEN_MAPPING no_last_data st event =
     (case getitem (data event) 0 of
        Inl err \<Rightarrow> Inl err
      | Inr address \<Rightarrow>
          (let token_name = (case TOKEN_MAPPING address of None \<Rightarrow> [] | Some n \<Rightarrow> n)
           in if token_name = [] \<or> key_name event \<noteq> ''current_apr''
              then Inr (st\<lparr>current_block := block_number event\<rparr>)
              else if no_last_data \<or> token_timestamps st token_name = 0
              then Inr (st\<lparr>token_timestamps :=
                              (token_timestamps st)(token_name := timestamp event),
                            current_block := block_number event\<rparr>)
              else
                (case getitem (data event) 1 of
                   Inl err \<Rightarrow> Inl err
                 | Inr field1 \<Rightarrow>
                (case int_base16 field1 of
                   Inl err \<Rightarrow> Inl err
                 | Inr borrow_bps \<Rightarrow>
                (case getitem (data event) 2 of
                   Inl err \<Rightarrow> Inl err
                 | Inr field2 \<Rightarrow>
                (case int_base16 field2 of
                   Inl err \<Rightarrow> Inl err
                 | Inr supply_bps \<Rightarrow>
                (case accrual_delta (of_int supply_bps)
                        (of_int (timestamp event - token_timestamps st token_name)) of
                   Inl err \<Rightarrow> Inl err
                 | Inr collateral_change \<Rightarrow>
                (case accrual_delta (of_int borrow_bps)
                        (of_int (timestamp event - token_timestamps st token_name)) of
                   Inl err \<Rightarrow> Inl err
                 | Inr debt_change \<Rightarrow>
                     update_state_cumulative_data
                       (st\<lparr>current_timestamp := timestamp event\<rparr>) token_name
                       (block_number event) collateral_change debt_change))))))))"

text \<open>
  The block-number transitions of an event list: the events whose block number differs
  from that of the event before them (\<open>transitions_from b\<close> compares the first event
  with \<open>b\<close>).
\<close>

fun transitions_from :: "int \<Rightarrow> Event list \<Rightarrow> nat" where
  "transitions_from b [] = 0"
| "transitions_from b (e # es) =
     (if b \<noteq> block_number e then 1 else 0) + transitions_from (block_number e) es"

definition transitions :: "Event list \<Rightarrow> nat" where
  "transitions evs =
     (case evs of [] \<Rightarrow> 0 | e # es \<Rightarrow> transitions_from (block_number e) es)"

text \<open>
  The token name an event resolves to through the lookup table, lines 84-85; the empty
  name when the address is missing or unknown.
\<close>

definition token_of :: "(string \<rightharpoonup> string) \<Rightarrow> Event \<Rightarrow> string" where
  "token_of TOKEN_MAPPING event =
     (case getitem (data event) 0 of
        Inl err \<Rightarrow> []
      | Inr address \<Rightarrow> (case TOKEN_MAPPING address of None \<Rightarrow> [] | Some n \<Rightarrow> n))"

text \<open>
  The two rate fields of an event decode: both are there and both are hexadecimal
  literals.
\<close>

definition rates_decode :: "Event \<Rightarrow> bool" where
  "rates_decode e =
     (case (getitem (data e) 1, getitem (data e) 2) of
        (Inr field1, Inr field2) \<Rightarrow>
          (case (int_base16 field1, int_base16 field2) of
             (Inr borrow_bps, Inr supply_bps) \<Rightarrow> True
           | _ \<Rightarrow> False)
      | _ \<Rightarrow> False)"

text \<open>
  An event the loop body can read whatever the state: its data has a first field, and
  when that field resolves to a token and the key name is \<^verbatim>\<open>current_apr\<close>, so that
  the body may reach lines 99-100, its rate fields decode. An event that the body
  skips needs no rate field.
\<close>

definition readable :: "(string \<rightharpoonup> string) \<Rightarrow> Event \<Rightarrow> bool" where
  "readable TOKEN_MAPPING e =
     (case getitem (data e) 0 of
        Inl err \<Rightarrow> False
      | Inr address \<Rightarrow>
          if token_of TOKEN_MAPPING e = [] \<or> key_name e \<noteq> ''current_apr'' then True
          else rates_decode e)"

text \<open>
  The seed of a fold, as \<open>InterestRateState_init\<close> takes it from
  \<^verbatim>\<open>self.last_block_data\<close>: the accumulators and the timestamp a token starts from.
\<close>

definition seed_collateral :: "HashstackV0InterestRate \<Rightarrow> string \<Rightarrow> rat" where
  "seed_collateral self name =
     (case last_block_data self of None \<Rightarrow> 0 | Some snap \<Rightarrow> collateral snap name)"

definition seed_debt :: "HashstackV0InterestRate \<Rightarrow> string \<Rightarrow> rat" where
  "seed_debt self name =
     (case last_block_data self of None \<Rightarrow> 0 | Some snap \<Rightarrow> debt snap name)"

definition seed_timestamp ::
  "(InterestRate \<Rightarrow> string \<Rightarrow> int) \<Rightarrow> HashstackV0InterestRate \<Rightarrow> string \<Rightarrow> int" where
  "seed_timestamp resume_timestamps self name =
     (case last_block_data self of None \<Rightarrow> 0 | Some snap \<Rightarrow> resume_timestamps snap name)"

text \<open>
  Sizes under which no Decimal operation of a fold can overflow. The rates of an event
  that decode, and its timestamp, are at most \<open>M\<close> in absolute value
  (\<open>event_within\<close>); so are the timestamps the tokens start from; the seed
  accumulators are at most \<open>10^K\<close> in absolute value, where \<open>2 M\<^sup>2 \<le> 10^K\<close>; and \<open>K\<close>
  plus the number of events does not exceed \<^verbatim>\<open>Emax\<close>.
\<close>

definition event_within :: "int \<Rightarrow> Event \<Rightarrow> bool" where
  "event_within M e =
     (\<bar>timestamp e\<bar> \<le> M
      \<and> (case (getitem (data e) 1, getitem (data e) 2) of
           (Inr field1, Inr field2) \<Rightarrow>
             (case (int_base16 field1, int_base16 field2) of
                (Inr borrow_bps, Inr supply_bps) \<Rightarrow> \<bar>borrow_bps\<bar> \<le> M \<and> \<bar>supply_bps\<bar> \<le> M
              | _ \<Rightarrow> True)
         | _ \<Rightarrow> True))"

definition within_limits ::
  "int \<Rightarrow> nat \<Rightarrow> (InterestRate \<Rightarrow> string \<Rightarrow> int) \<Rightarrow> HashstackV0InterestRate \<Rightarrow> bool" where
  "within_limits M K resume_timestamps self =
     (2 * M * M \<le> 10 ^ K
      \<and> int K + int (length (events self)) \<le> EMAX
      \<and> list_all (event_within M) (events self)
      \<and> (\<forall>name. \<bar>seed_timestamp resume_timestamps self name\<bar> \<le> M
                 \<and> \<bar>seed_collateral self name\<bar> \<le> 10 ^ K
                 \<and> \<bar>seed_debt self name\<bar> \<le> 10 ^ K))"

text \<open>The same sizes for an accrual state, with the accumulators at most \<open>10^J\<close>.\<close>

definition state_within :: "int \<Rightarrow> nat \<Rightarrow> InterestRateState \<Rightarrow> bool" where
  "state_within M J st =
     (\<forall>name. \<bar>token_timestamps st name\<bar> \<le> M
             \<and> \<bar>cumulative_collateral st name\<bar> \<le> 10 ^ J
             \<and> \<bar>cumulative_debt st name\<bar> \<le> 10 ^ J)"

text \<open>
  What the properties observe of one token in a state: its stored timestamp, its
  cumulative collateral accumulator and its cumulative debt accumulator.
\<close>

definition token_view :: "InterestRateState \<Rightarrow> string \<Rightarrow> int \<times> rat \<times> rat" where
  "token_view st name =
     (token_timestamps st name, cumulative_collateral st name, cumulative_debt st name)"

text \<open>
  The two outcomes the spec describes for a rate event of a known token: the baseline
  (the event's timestamp is recorded, the accumulators stay) and the accrual (the deltas
  for the seconds since the stored timestamp are added, the timestamp is updated).
\<close>

definition baseline_view :: "InterestRateState \<Rightarrow> Event \<Rightarrow> string \<Rightarrow> int \<times> rat \<times> rat" where
  "baseline_view st e name =
     (timestamp e, cumulative_collateral st name, cumulative_debt st name)"

definition accrued_view ::
  "InterestRateState \<Rightarrow> Event \<Rightarrow> string \<Rightarrow> int \<Rightarrow> int \<Rightarrow> py_error + (int \<times> rat \<times> rat)" where
  "accrued_view st e name borrow_bps supply_bps =
     (let seconds_passed = of_int (timestamp e - token_timestamps st name)
      in case accrual_delta (of_int supply_bps) seconds_passed of
           Inl err \<Rightarrow> Inl err
         | Inr collateral_change \<Rightarrow>
        (case accrual_delta (of_int borrow_bps) seconds_passed of
           Inl err \<Rightarrow> Inl err
         | Inr debt_change \<Rightarrow>
        (case decimal_add (cumulative_collateral st name) collateral_change of
           Inl err \<Rightarrow> Inl err
         | Inr new_collateral \<Rightarrow>
        (case decimal_add (cumulative_debt st name) debt_change of
           Inl err \<Rightarrow> Inl err
         | Inr new_debt \<Rightarrow> Inr (timestamp e, new_collateral, new_debt)))))"

text \<open>
  The step as the spec words it: the baseline exactly when there is no prior persisted
  state and the stored timestamp is 0, the accrual in every other case.
\<close>

definition claimed_token_view ::
  "HashstackV0InterestRate \<Rightarrow> InterestRateState \<Rightarrow> Event \<Rightarrow> string \<Rightarrow> int \<Rightarrow> int
     \<Rightarrow> py_error + (int \<times> rat \<times> rat)" where
  "claimed_token_view self st e name borrow_bps supply_bps =
     (if last_block_data self = None \<and> token_timestamps st name = 0
      then Inr (baseline_view st e name)
      else accrued_view st e name borrow_bps supply_bps)"

text \<open>The view of a token after one pass of the loop body, or the exception.\<close>

definition step_view ::
  "py_error + (HashstackV0InterestRate \<times> InterestRateState \<times> InterestRate list) \<Rightarrow> string
     \<Rightarrow> py_error + (int \<times> rat \<times> rat)" where
  "step_view r name =
     (case r of Inl err \<Rightarrow> Inl err | Inr (self', st', blocks') \<Rightarrow> Inr (token_view st' name))"

text \<open>
  Example inputs: a lookup table with two tokens, a rate event, the state of a fresh run
  after a first ETH event at timestamp 1000 in block 100, a persisted snapshot with
  accumulators 0, and one whose ETH accumulators are 0.25 and 0.5.
\<close>

definition example_state :: InterestRateState where
  "example_state =
     \<lparr>current_block = 100, current_timestamp = 0,
      token_timestamps = (\<lambda>_. 0)(''ETH'' := 1000),
      cumulative_collateral = (\<lambda>_. 0), cumulative_debt = (\<lambda>_. 0)\<rparr>"

definition example_snapshot :: InterestRate where
  "example_snapshot =
     \<lparr>block = 99, snapshot_timestamp = 1000, collateral = (\<lambda>_. 0), debt = (\<lambda>_. 0),
      protocol_id = HASHSTACK_ID\<rparr>"

definition seeded_snapshot :: InterestRate where
  "seeded_snapshot =
     \<lparr>block = 99, snapshot_timestamp = 1000,
      collateral = (\<lambda>_. 0)(''ETH'' := 1 / 4), debt = (\<lambda>_. 0)(''ETH'' := 1 / 2),
      protocol_id = HASHSTACK_ID\<rparr>"

definition example_tokens :: "string \<rightharpoonup> string" where
  "example_tokens = [''0x1'' \<mapsto> ''ETH'', ''0x2'' \<mapsto> ''USDC'']"

definition apr_event :: "int \<Rightarrow> int \<Rightarrow> string \<Rightarrow> string \<Rightarrow> string \<Rightarrow> Event" where
  "apr_event b t address borrow supply =
     \<lparr>block_number = b, timestamp = t, key_name = ''current_apr'',
      data = [address, borrow, supply]\<rparr>"

text \<open>A value that fits the context precision: rounding leaves it as it is.\<close>

definition representable :: "rat \<Rightarrow> bool" where
  "representable x = (round_to_context x = x)"

text \<open>
  An event carries non-negative basis-point values: its two rate fields are there,
  decode as hexadecimal and are not negative.
\<close>

definition nonneg_bps :: "Event \<Rightarrow> bool" where
  "nonneg_bps e =
     (case (getitem (data e) 1, getitem (data e) 2) of
        (Inr field1, Inr field2) \<Rightarrow>
          (case (int_base16 field1, int_base16 field2) of
             (Inr borrow_bps, Inr supply_bps) \<Rightarrow> 0 \<le> borrow_bps \<and> 0 \<le> supply_bps
           | _ \<Rightarrow> False)
      | _ \<Rightarrow> False)"

text \<open>The accumulators of one token in the snapshots a fold returned, in order.\<close>

definition accumulator_series ::
  "py_error + (HashstackV0InterestRate \<times> InterestRate list) \<Rightarrow> string \<Rightarrow> (rat \<times> rat) list" where
  "accumulator_series r name =
     (case r of
        Inl err \<Rightarrow> []
      | Inr (self', blocks_data) \<Rightarrow> map (\<lambda>snap. (collateral snap name, debt snap name)) blocks_data)"

text \<open>The windows a finished run requested from the API, in order.\<close>

definition windows_of ::
  "(py_error + HashstackV0InterestRate) option \<Rightarrow> (pyobj \<times> pyobj) list" where
  "windows_of r = (case r of Some (Inr self) \<Rightarrow> requests self | _ \<Rightarrow> [])"

text \<open>
  Two accrual states carry the same accrual data for a set of tokens: the same current
  timestamp, the same accumulators, and the same stored timestamp for each of the
  tokens. Two loop states make the same progress when their accrual states do and both
  objects hold a last snapshot.
\<close>

definition same_accrual :: "string set \<Rightarrow> InterestRateState \<Rightarrow> InterestRateState \<Rightarrow> bool" where
  "same_accrual T a b =
     (current_timestamp a = current_timestamp b
      \<and> cumulative_collateral a = cumulative_collateral b
      \<and> cumulative_debt a = cumulative_debt b
      \<and> (\<forall>name\<in>T. token_timestamps a name = token_timestamps b name))"

definition same_progress ::
  "string set \<Rightarrow> HashstackV0InterestRate \<times> InterestRateState \<times> InterestRate list
     \<Rightarrow> HashstackV0InterestRate \<times> InterestRateState \<times> InterestRate list \<Rightarrow> bool" where
  "same_progress T x y =
     (case (x, y) of
        ((self_a, a, blocks_a), (self_b, b, blocks_b)) \<Rightarrow>
          same_accrual T a b \<and> last_block_data self_a \<noteq> None
          \<and> last_block_data self_b \<noteq> None)"

text \<open>
  A run over one window: \<^verbatim>\<open>self.events\<close> is set to the window's events and
  \<^verbatim>\<open>calculate_interest_rates\<close> is called, as the loop of \<^verbatim>\<open>run\<close> does. \<open>two_pass\<close> runs
  two windows one after the other, the second on the object the first left (its
  \<^verbatim>\<open>last_block_data\<close> is the last snapshot of the first); \<open>one_pass\<close> runs both windows'
  events as one window.
\<close>

definition fold_window ::
  "(string \<rightharpoonup> string) \<Rightarrow> (InterestRate \<Rightarrow> string \<Rightarrow> int) \<Rightarrow> HashstackV0InterestRate
     \<Rightarrow> Event list \<Rightarrow> py_error + (HashstackV0InterestRate \<times> InterestRate list)" where
  "fold_window TOKEN_MAPPING resume_timestamps self evs =
     calculate_interest_rates TOKEN_MAPPING resume_timestamps (self\<lparr>events := evs\<rparr>)"

definition two_pass ::
  "(string \<rightharpoonup> string) \<Rightarrow> (InterestRate \<Rightarrow> string \<Rightarrow> int) \<Rightarrow> HashstackV0InterestRate
     \<Rightarrow> Event list \<Rightarrow> Event list
     \<Rightarrow> py_error + (HashstackV0InterestRate \<times> InterestRate list)" where
  "two_pass TOKEN_MAPPING resume_timestamps self evs1 evs2 =
     (case fold_window TOKEN_MAPPING resume_timestamps self evs1 of
        Inl err \<Rightarrow> Inl err
      | Inr (self1, blocks1) \<Rightarrow> fold_window TOKEN_MAPPING resume_timestamps self1 evs2)"

definition one_pass ::
  "(string \<rightharpoonup> string) \<Rightarrow> (InterestRate \<Rightarrow> string \<Rightarrow> int) \<Rightarrow> HashstackV0InterestRate
     \<Rightarrow> Event list \<Rightarrow> Event list
     \<Rightarrow> py_error + (HashstackV0InterestRate \<times> InterestRate list)" where
  "one_pass TOKEN_MAPPING resume_timestamps self evs1 evs2 =
     fold_window TOKEN_MAPPING resume_timestamps self (evs1 @ evs2)"

text \<open>
  The final accumulators of a token after a run: those of the last snapshot written,
  which \<^verbatim>\<open>self.last_block_data\<close> holds, or the exception.
\<close>

definition final_accumulators ::
  "py_error + (HashstackV0InterestRate \<times> InterestRate list) \<Rightarrow> string
     \<Rightarrow> py_error + (rat \<times> rat)" where
  "final_accumulators r name =
     (case r of
        Inl err \<Rightarrow> Inl err
      | Inr (self', blocks_data) \<Rightarrow>
          (case last_block_data self' of
             None \<Rightarrow> Inr (0, 0)
           | Some snap \<Rightarrow> Inr (collateral snap name, debt snap name)))"

text \<open>
  The state the second window is seeded with resumes where the first left: for every
  token an event of the second window resolves to, the timestamp the constructor gives
  the token from the first window's last snapshot is the token's stored timestamp at
  the end of the first fold. It holds trivially when the first fold raises or has no
  events.
\<close>

definition resumes_where_left ::
  "(string \<rightharpoonup> string) \<Rightarrow> (InterestRate \<Rightarrow> string \<Rightarrow> int) \<Rightarrow> HashstackV0InterestRate
     \<Rightarrow> Event list \<Rightarrow> Event list \<Rightarrow> bool" where
  "resumes_where_left TOKEN_MAPPING resume_timestamps self evs1 evs2 =
     (case calculate_with_state TOKEN_MAPPING resume_timestamps (self\<lparr>events := evs1\<rparr>) of
        Inr (self1, Some st1, blocks1) \<Rightarrow>
          list_all
            (\<lambda>e. token_of TOKEN_MAPPING e = []
                 \<or> resume_timestamps (build_interest_rate_model st1 HASHSTACK_ID)
                      (token_of TOKEN_MAPPING e)
                    = token_timestamps st1 (token_of TOKEN_MAPPING e))
            evs2
      | _ \<Rightarrow> True)"

text \<open>
  Example windows. A first window of three zero-rate events in block 100, an ETH event
  at timestamp \<open>t\<close> followed by two USDC events, and a second window of one ETH event in
  block 200 with borrow rate \<^verbatim>\<open>0x64\<close> and supply rate \<^verbatim>\<open>0x32\<close>.
\<close>

definition quiet_window :: "int \<Rightarrow> Event list" where
  "quiet_window t =
     [apr_event 100 t ''0x1'' ''0x0'' ''0x0'',
      apr_event 100 40000000 ''0x2'' ''0x0'' ''0x0'',
      apr_event 100 50000000 ''0x2'' ''0x0'' ''0x0'']"

definition rate_window :: "Event list" where
  "rate_window = [apr_event 200 63073000 ''0x1'' ''0x64'' ''0x32'']"

section \<open>Properties\<close>

subsection \<open>Decimal rounding\<close>

text \<open>
  Rounding to the context precision keeps the sign and is monotone, and a result whose
  exact value is at most a power of ten up to \<open>10^Emax\<close> does not overflow; these are
  the facts about Decimal arithmetic that the fold needs.
\<close>

lemma pow10_powi: "pow10 k = 10 powi k"
  by (simp add: pow10_def power_int_def power_divide)

lemma ndigits_bounds:
  "0 < n \<Longrightarrow> 1 \<le> ndigits n \<and> 10 ^ nat (ndigits n - 1) \<le> n \<and> n < 10 ^ nat (ndigits n)"
proof (induction n rule: ndigits.induct)
  case (1 n)
  show ?case
  proof (cases "n < 10")
    case True
    with 1 show ?thesis by (simp add: ndigits.simps)
  next
    case False
    define m where "m = n div 10"
    have mpos: "0 < m" using False by (simp add: m_def)
    from 1(1)[OF False] mpos
    have ih: "1 \<le> ndigits m" "10 ^ nat (ndigits m - 1) \<le> m" "m < 10 ^ nat (ndigits m)"
      by (simp_all add: m_def)
    have nd: "ndigits n = 1 + ndigits m" using False by (simp add: ndigits.simps m_def)
    have e1: "nat (ndigits n - 1) = Suc (nat (ndigits m - 1))" using nd ih(1) by simp
    have e2: "nat (ndigits n) = Suc (nat (ndigits m))" using nd ih(1) by simp
    have "10 * m \<le> n" "n < 10 * (m + 1)" by (simp_all add: m_def)
    with ih show ?thesis unfolding e1 e2 by (simp add: nd)
  qed
qed


lemma ndigits_powi:
  assumes "0 < n"
  shows "(10::rat) powi (ndigits n - 1) \<le> of_int n" and "of_int n < (10::rat) powi ndigits n"
proof -
  from ndigits_bounds[OF assms]
  have b: "1 \<le> ndigits n" "10 ^ nat (ndigits n - 1) \<le> n" "n < 10 ^ nat (ndigits n)"
    by simp_all
  have "(of_int (10 ^ nat (ndigits n - 1)) :: rat) \<le> of_int n"
    using b(2) by (simp only: of_int_le_iff)
  then show "(10::rat) powi (ndigits n - 1) \<le> of_int n"
    using b(1) by (simp add: power_int_nonneg_exp)
  have "(of_int n :: rat) < of_int (10 ^ nat (ndigits n))"
    using b(3) by (simp only: of_int_less_iff)
  then show "of_int n < (10::rat) powi ndigits n"
    using b(1) by (simp add: power_int_nonneg_exp)
qed

lemma adjusted_bracket:
  assumes "x \<noteq> 0"
  shows "10 powi adjusted x \<le> \<bar>x\<bar>" and "\<bar>x\<bar> < 10 powi (adjusted x + 1)"
proof -
  obtain p q where pq: "quotient_of \<bar>x\<bar> = (p, q)" by force
  have qpos: "0 < q" using quotient_of_denom_pos[OF pq] .
  have xeq: "\<bar>x\<bar> = of_int p / of_int q" using quotient_of_div[OF pq] .
  have "0 < \<bar>x\<bar>" using assms by simp
  with xeq qpos have ppos: "0 < p" by (simp add: zero_less_divide_iff)
  define dp where "dp = ndigits p"
  define dq where "dq = ndigits q"
  note bp = ndigits_powi[OF ppos, folded dp_def] and bq = ndigits_powi[OF qpos, folded dq_def]
  have qr: "(0::rat) < of_int q" and pr: "(0::rat) < of_int p" using qpos ppos by simp_all
  have "of_int p / of_int q < (10::rat) powi dp / 10 powi (dq - 1)"
    using pr bp(2) bq(1) by (intro frac_less) simp_all
  also have "\<dots> = 10 powi (dp - dq + 1)"
    by (simp add: power_int_diff[symmetric] algebra_simps)
  finally have hi: "\<bar>x\<bar> < 10 powi (dp - dq + 1)" unfolding xeq .
  have "(10::rat) powi (dp - 1) / 10 powi dq < of_int p / of_int q"
    using qr bp(1) bq(2) by (intro frac_less2) simp_all
  moreover have "(10::rat) powi (dp - 1) / 10 powi dq = 10 powi (dp - dq - 1)"
    by (simp add: power_int_diff[symmetric] algebra_simps)
  ultimately have lo: "10 powi (dp - dq - 1) < \<bar>x\<bar>" unfolding xeq by simp
  have adj: "adjusted x = (if 10 powi (dp - dq) \<le> \<bar>x\<bar> then dp - dq else dp - dq - 1)"
    unfolding adjusted_def pq by (simp add: Let_def pow10_powi dp_def dq_def)
  show "10 powi adjusted x \<le> \<bar>x\<bar>" using lo unfolding adj by auto
  show "\<bar>x\<bar> < 10 powi (adjusted x + 1)" using hi unfolding adj by auto
qed


lemma rhe_of_int: "round_half_even (of_int n) = n"
  by (simp add: round_half_even_def)

lemma rhe_range: "\<lfloor>x\<rfloor> \<le> round_half_even x \<and> round_half_even x \<le> \<lfloor>x\<rfloor> + 1"
  by (simp add: round_half_even_def Let_def)

lemma rhe_mono:
  assumes "x \<le> y"
  shows "round_half_even x \<le> round_half_even y"
proof (cases "\<lfloor>x\<rfloor> < \<lfloor>y\<rfloor>")
  case True
  have "round_half_even x \<le> \<lfloor>x\<rfloor> + 1" using rhe_range[of x] by simp
  also have "\<dots> \<le> \<lfloor>y\<rfloor>" using True by simp
  also have "\<dots> \<le> round_half_even y" using rhe_range[of y] by simp
  finally show ?thesis .
next
  case False
  with floor_mono[OF assms] have eq: "\<lfloor>x\<rfloor> = \<lfloor>y\<rfloor>" by simp
  have "x - of_int \<lfloor>y\<rfloor> \<le> y - of_int \<lfloor>y\<rfloor>" using assms by simp
  then show ?thesis
    unfolding round_half_even_def Let_def eq by auto
qed

lemma rhe_neg: "round_half_even (- x) = - round_half_even x"
proof (cases "x = of_int \<lfloor>x\<rfloor>")
  case True
  then obtain n where "x = of_int n" by blast
  then show ?thesis
    using rhe_of_int[of n] rhe_of_int[of "- n"] by simp
next
  case False
  have lo: "of_int \<lfloor>x\<rfloor> < x" by (metis False of_int_floor_le order_less_le)
  have hi: "x < of_int \<lfloor>x\<rfloor> + 1" by linarith
  have fl: "\<lfloor>- x\<rfloor> = - \<lfloor>x\<rfloor> - 1"
    using lo hi by (intro floor_unique) simp_all
  show ?thesis
    unfolding round_half_even_def Let_def fl using lo hi
    by (auto simp: field_simps)
qed


lemma adjusted_neg: "adjusted (- x) = adjusted x"
  by (simp add: adjusted_def)

lemma powi_shift: "(10::rat) powi (e + int n) = of_int (10 ^ n) * 10 powi e"
  by (simp add: power_int_add)

lemma powi_strict: "(10::rat) powi a \<le> 10 powi b \<Longrightarrow> a \<le> b"
proof (rule ccontr)
  assume le: "(10::rat) powi a \<le> 10 powi b" and "\<not> a \<le> b"
  then have "b + 1 \<le> a" by simp
  then have "(10::rat) powi (b + 1) \<le> 10 powi a"
    by (intro power_int_increasing) simp_all
  moreover have "(10::rat) powi b < 10 powi (b + 1)"
    by (intro power_int_strict_increasing) simp_all
  ultimately show False using le by linarith
qed

lemma adjusted_unique:
  assumes "10 powi k \<le> \<bar>x\<bar>" and "\<bar>x\<bar> < 10 powi (k + 1)"
  shows "adjusted x = k"
proof -
  have nz: "x \<noteq> 0"
  proof
    assume "x = 0"
    with assms(1) have "(10::rat) powi k \<le> 0" by simp
    moreover have "(0::rat) < 10 powi k" by simp
    ultimately show False by linarith
  qed
  note b = adjusted_bracket[OF nz]
  have "(10::rat) powi adjusted x \<le> 10 powi (k + 1)" using b(1) assms(2) by linarith
  then have "adjusted x \<le> k + 1" by (rule powi_strict)
  moreover have "adjusted x \<noteq> k + 1" using b(1) assms(2) by auto
  moreover have "(10::rat) powi k \<le> 10 powi (adjusted x + 1)" using b(2) assms(1) by linarith
  then have "k \<le> adjusted x + 1" by (rule powi_strict)
  moreover have "k \<noteq> adjusted x + 1" using b(2) assms(1) by auto
  ultimately show ?thesis by simp
qed

lemma adjusted_le:
  assumes "x \<noteq> 0" and "\<bar>x\<bar> \<le> 10 powi k"
  shows "adjusted x \<le> k"
proof -
  from adjusted_bracket(1)[OF assms(1)] assms(2)
  have "(10::rat) powi adjusted x \<le> 10 powi k" by linarith
  then show ?thesis by (rule powi_strict)
qed

lemma adjusted_mono:
  assumes "0 < x" and "x \<le> y"
  shows "adjusted x \<le> adjusted y"
proof -
  have ypos: "0 < y" using assms by simp
  from adjusted_bracket[of x] assms(1) have bx: "10 powi adjusted x \<le> x" by simp
  from adjusted_bracket[of y] ypos have by': "y < 10 powi (adjusted y + 1)" by simp
  have "(10::rat) powi adjusted x \<le> 10 powi (adjusted y + 1)"
    using bx assms(2) by' by linarith
  then have "adjusted x \<le> adjusted y + 1" by (rule powi_strict)
  moreover have "adjusted x \<noteq> adjusted y + 1" using bx assms(2) by' by auto
  ultimately show ?thesis by simp
qed

lemma rhe_small: "0 \<le> y \<Longrightarrow> y < 1 / 2 \<Longrightarrow> round_half_even y = 0"
proof -
  assume a: "0 \<le> y" "y < 1 / 2"
  then have "\<lfloor>y\<rfloor> = 0" by (intro floor_unique) simp_all
  with a show ?thesis by (simp add: round_half_even_def Let_def)
qed

lemma round_to_context_neg: "round_to_context (- x) = - round_to_context x"
  by (simp add: round_to_context_def quantum_def adjusted_neg rhe_neg)

lemma round_to_context_pos:
  assumes "0 < x"
  shows "round_to_context x
           = of_int (round_half_even (x / 10 powi quantum x)) * 10 powi quantum x"
  using assms by (simp add: round_to_context_def pow10_powi)

lemma round_to_context_nonneg: "0 \<le> x \<Longrightarrow> 0 \<le> round_to_context x"
proof (cases "x = 0")
  case True
  then show ?thesis by (simp add: round_to_context_def)
next
  case False
  assume "0 \<le> x"
  with False have pos: "0 < x" by simp
  have "0 \<le> x / 10 powi quantum x" using pos by simp
  from rhe_mono[OF this] have "0 \<le> round_half_even (x / 10 powi quantum x)"
    using rhe_of_int[of 0] by simp
  then show ?thesis unfolding round_to_context_pos[OF pos] by simp
qed

lemma round_to_context_upper:
  assumes "0 < x"
  shows "round_to_context x \<le> 10 powi (adjusted x + 1)"
proof -
  define e where "e = adjusted x"
  define g where "g = quantum x"
  define q :: rat where "q = 10 powi g"
  have qpos: "0 < q" by (simp add: q_def)
  have cr: "round_to_context x = of_int (round_half_even (x / q)) * q"
    using round_to_context_pos[OF assms] by (simp add: g_def q_def)
  from adjusted_bracket[of x] assms have b: "x < 10 powi (e + 1)" by (simp add: e_def)
  show ?thesis
  proof (cases "g \<le> e + 1")
    case True
    define n where "n = nat (e + 1 - g)"
    define hi :: int where "hi = 10 ^ n"
    have "g + int n = e + 1" using True by (simp add: n_def)
    with powi_shift[of g n] have ehi: "10 powi (e + 1) = of_int hi * q"
      by (simp add: q_def hi_def)
    have "x / q \<le> of_int hi" using b qpos unfolding ehi by (simp add: pos_divide_le_eq)
    from rhe_mono[OF this] have "round_half_even (x / q) \<le> hi" by (simp only: rhe_of_int)
    then have "(of_int (round_half_even (x / q)) :: rat) \<le> of_int hi"
      by (simp only: of_int_le_iff)
    then have "of_int (round_half_even (x / q)) * q \<le> of_int hi * q"
      using qpos by (intro mult_right_mono) simp_all
    then show ?thesis unfolding cr ehi[symmetric] e_def .
  next
    case False
    then have "e + 1 \<le> g - 1" by simp
    then have "(10::rat) powi (e + 1) \<le> 10 powi (g - 1)"
      by (intro power_int_increasing) simp_all
    also have "\<dots> = q / 10" by (simp add: q_def power_int_diff)
    finally have "x < q / 10" using b by linarith
    then have "x / q < 1 / 10" using qpos by (simp add: pos_divide_less_eq)
    moreover have "0 \<le> x / q" using assms qpos by simp
    ultimately have "round_half_even (x / q) = 0" by (intro rhe_small) linarith+
    then show ?thesis unfolding cr by simp
  qed
qed

lemma round_to_context_lower:
  assumes "0 < x" and "ETINY \<le> adjusted x - (PREC - 1)"
  shows "10 powi adjusted x \<le> round_to_context x"
proof -
  define e where "e = adjusted x"
  define q :: rat where "q = 10 powi (e - 27)"
  have g: "quantum x = e - 27" using assms(2) by (simp add: quantum_def e_def PREC_def)
  have qpos: "0 < q" by (simp add: q_def)
  have cr: "round_to_context x = of_int (round_half_even (x / q)) * q"
    using round_to_context_pos[OF assms(1)] by (simp add: g q_def)
  from adjusted_bracket[of x] assms(1) have b: "10 powi e \<le> x" by (simp add: e_def)
  define lo :: int where "lo = 10 ^ 27"
  have elo: "10 powi e = of_int lo * q"
    using powi_shift[of "e - 27" 27] by (simp add: q_def lo_def)
  have "of_int lo \<le> x / q" using b qpos unfolding elo by (simp add: pos_le_divide_eq)
  from rhe_mono[OF this] have "lo \<le> round_half_even (x / q)" by (simp only: rhe_of_int)
  then have "(of_int lo :: rat) \<le> of_int (round_half_even (x / q))"
    by (simp only: of_int_le_iff)
  then have "of_int lo * q \<le> of_int (round_half_even (x / q)) * q"
    using qpos by (intro mult_right_mono) simp_all
  then show ?thesis unfolding cr elo[symmetric] e_def .
qed

lemma round_to_context_mono_pos:
  assumes "0 < x" and "x \<le> y"
  shows "round_to_context x \<le> round_to_context y"
proof -
  have ypos: "0 < y" using assms by simp
  have le: "adjusted x \<le> adjusted y" using assms by (rule adjusted_mono)
  show ?thesis
  proof (cases "quantum x = quantum y")
    case True
    define q :: rat where "q = 10 powi quantum y"
    have qpos: "0 < q" by (simp add: q_def)
    have "x / q \<le> y / q" using assms(2) qpos by (simp add: divide_right_mono)
    from rhe_mono[OF this]
    have "(of_int (round_half_even (x / q)) :: rat) \<le> of_int (round_half_even (y / q))"
      by (simp only: of_int_le_iff)
    then have "of_int (round_half_even (x / q)) * q \<le> of_int (round_half_even (y / q)) * q"
      using qpos by (intro mult_right_mono) simp_all
    then show ?thesis
      unfolding round_to_context_pos[OF assms(1)] round_to_context_pos[OF ypos] True q_def .
  next
    case False
    with le have normal: "ETINY \<le> adjusted y - (PREC - 1)" and lt: "adjusted x + 1 \<le> adjusted y"
      by (auto simp: quantum_def max_def split: if_splits)
    from lt have "(10::rat) powi (adjusted x + 1) \<le> 10 powi adjusted y"
      by (intro power_int_increasing) simp_all
    with round_to_context_upper[OF assms(1)] round_to_context_lower[OF ypos normal]
    show ?thesis by linarith
  qed
qed

lemma round_to_context_mono:
  assumes "x \<le> y"
  shows "round_to_context x \<le> round_to_context y"
proof -
  consider "0 < x" | "x \<le> 0" "0 \<le> y" | "y < 0" by linarith
  then show ?thesis
  proof cases
    case 1
    then show ?thesis using assms by (rule round_to_context_mono_pos)
  next
    case 2
    have "0 \<le> round_to_context (- x)" using 2(1) by (intro round_to_context_nonneg) simp
    then have "round_to_context x \<le> 0" by (simp add: round_to_context_neg)
    moreover have "0 \<le> round_to_context y" using 2(2) by (rule round_to_context_nonneg)
    ultimately show ?thesis by linarith
  next
    case 3
    have "round_to_context (- y) \<le> round_to_context (- x)"
      using 3 assms by (intro round_to_context_mono_pos) simp_all
    then show ?thesis by (simp add: round_to_context_neg)
  qed
qed

text \<open>Powers of ten are representable, so they bound the rounded value as the exact one.\<close>

lemma round_to_context_power: "round_to_context (10 ^ k) = 10 ^ k"
proof -
  have p: "(10::rat) ^ k = 10 powi int k" by simp
  have "(10::rat) powi int k < 10 powi (int k + 1)"
    by (intro power_int_strict_increasing) simp_all
  then have adj: "adjusted (10 ^ k) = int k"
    by (intro adjusted_unique) (simp_all del: power_int_of_nat add: p)
  define g where "g = quantum (10 ^ k)"
  have gle: "g \<le> int k" by (simp add: g_def quantum_def adj PREC_def ETINY_def EMIN_def)
  define n where "n = nat (int k - g)"
  define m :: int where "m = 10 ^ n"
  have "g + int n = int k" using gle by (simp add: n_def)
  with powi_shift[of g n] have eq: "(10::rat) ^ k = of_int m * 10 powi g"
    by (simp add: p m_def del: power_int_of_nat)
  have "(10::rat) ^ k / 10 powi g = of_int m" unfolding eq by simp
  then have "round_half_even ((10::rat) ^ k / 10 powi g) = m"
    by (simp only: rhe_of_int)
  then have "round_to_context (10 ^ k) = of_int m * 10 powi g"
    using round_to_context_pos[of "10 ^ k"] by (simp add: g_def)
  then show ?thesis using eq by simp
qed

lemma round_to_context_abs_le:
  assumes "\<bar>x\<bar> \<le> 10 ^ k"
  shows "\<bar>round_to_context x\<bar> \<le> 10 ^ k"
proof -
  have "x \<le> 10 ^ k" and "- (10 ^ k) \<le> x" using assms by simp_all
  from round_to_context_mono[OF this(1)] round_to_context_mono[OF this(2)]
  show ?thesis by (simp add: round_to_context_power round_to_context_neg abs_le_iff)
qed

lemma context_round_value: "context_round x = Inr r \<Longrightarrow> r = round_to_context x"
  by (simp add: context_round_def Let_def split: if_splits)

lemma context_round_within:
  assumes "\<bar>x\<bar> \<le> 10 ^ k" and "int k \<le> EMAX"
  shows "context_round x = Inr (round_to_context x)"
proof (cases "round_to_context x = 0")
  case True
  then show ?thesis by (simp add: context_round_def)
next
  case False
  have "\<bar>round_to_context x\<bar> \<le> 10 powi int k"
    using round_to_context_abs_le[OF assms(1)] by simp
  from adjusted_le[OF False this] assms(2) show ?thesis
    by (simp add: context_round_def Let_def)
qed

subsection \<open>The pagination planner and the loop\<close>

lemma bounds_end_le: "snd (get_blocks_bounds s e latest) \<le> latest"
  unfolding get_blocks_bounds_def PAGINATION_SIZE_def Let_def by simp

lemma bounds_end_grows: "e < latest \<Longrightarrow> e < snd (get_blocks_bounds s e latest)"
  unfolding get_blocks_bounds_def PAGINATION_SIZE_def Let_def by simp

lemma run_loop_over: "run_loop g tm rs latest True s e self = Some (Inr self)"
  by (subst run_loop.simps) simp

lemma run_loop_last:
  assumes "latest \<le> e"
  shows "\<exists>r. run_loop g tm rs latest False s e self = Some r"
  using assms
  by (subst run_loop.simps) (auto simp: Let_def run_loop_over split: prod.splits sum.splits)

lemma run_loop_returns: "\<exists>r. run_loop g tm rs latest ov s e self = Some r"
proof (induction "nat (latest - e)" arbitrary: s e self ov rule: less_induct)
  case less
  show ?case
  proof (cases ov)
    case True
    then show ?thesis by (simp add: run_loop_over)
  next
    case False
    show ?thesis
    proof (cases "latest \<le> e")
      case True
      with False show ?thesis by (simp add: run_loop_last)
    next
      case lt: False
      obtain s' e' where b: "get_blocks_bounds s e latest = (s', e')" by force
      have "e < e'" using bounds_end_grows[of e latest s] lt b by simp
      moreover have "e' \<le> latest" using bounds_end_le[of s e latest] b by simp
      ultimately have m: "nat (latest - e') < nat (latest - e)" using lt by linarith
      have ih: "\<And>self'. \<exists>r. run_loop g tm rs latest False s' e' self' = Some r"
        using less[OF m] by blast
      show ?thesis using False lt b ih
        by (subst run_loop.simps) (auto simp: Let_def split: prod.splits sum.splits)
    qed
  qed
qed


text \<open>
  C6. For every triple (previous start, previous end, latest block) the window that
  \<^verbatim>\<open>_get_blocks_bounds\<close> returns ends at or before the latest block.
\<close>

theorem get_blocks_bounds_end_le_latest:
  "snd (get_blocks_bounds start_block end_block latest_block) \<le> latest_block"
  by (rule bounds_end_le)

text \<open>
  C10. The pagination loop of \<^verbatim>\<open>run\<close> terminates for every latest block, every answer
  of the API and every state of the object: from any loop state the loop returns (a
  result or the exception of the fold), and so does \<^verbatim>\<open>run\<close>. While the window's end is
  below the latest block each iteration moves it strictly up and never past the latest
  block; an iteration that finds it at or past the latest block is the last.
\<close>

theorem run_terminates:
  "(\<exists>r. run_loop get_data TOKEN_MAPPING resume_timestamps latest_block events_over
          start_block end_block self = Some r)
   \<and> (\<exists>r. run get_data TOKEN_MAPPING resume_timestamps latest_block self = Some r)"
proof
  show "\<exists>r. run_loop get_data TOKEN_MAPPING resume_timestamps latest_block events_over
          start_block end_block self = Some r"
    by (rule run_loop_returns)
  show "\<exists>r. run get_data TOKEN_MAPPING resume_timestamps latest_block self = Some r"
    unfolding run_def Let_def
    by (simp add: run_loop_returns split: prod.splits)
qed


lemma bounds_clamp:
  "latest \<le> e + PAGINATION_SIZE \<Longrightarrow> get_blocks_bounds s e latest = (s, latest)"
  unfolding get_blocks_bounds_def by simp

lemma fresh_run_enters_loop:
  "run g tm rs 5000 (init None) = run_loop g tm rs 5000 False 1000 2000 (init None)"
  by (simp add: run_def init_def get_blocks_bounds_def PAGINATION_SIZE_def Let_def)

lemma set_events_error:
  "g a b = ResultDict d \<Longrightarrow>
     events (set_events g self a b) = [] \<and> events_over_attr (set_events g self a b)
     \<and> requests (set_events g self a b) = requests self @ [(a, b)]
     \<and> written (set_events g self a b) = written self"
  by (simp add: set_events_def Let_def)

lemma set_events_empty:
  "g a b = ResultList [] \<Longrightarrow>
     events (set_events g self a b) = []
     \<and> requests (set_events g self a b) = requests self @ [(a, b)]"
  by (simp add: set_events_def Let_def)

text \<open>
  C3, evaluated on the code. On a fresh run (no persisted snapshot) with latest block
  5000, \<^verbatim>\<open>run\<close> calls \<^verbatim>\<open>_get_blocks_bounds(0, 1000, 5000)\<close> before the first fetch, which
  returns \<open>(1000, 2000)\<close>: the loop is entered with that window, and with an API that
  has no events the windows requested are \<open>(1000, 2000)\<close>, \<open>(3000, 3000)\<close> and
  \<open>(6000, 5000)\<close>. The window \<open>(0, 1000)\<close> is never requested. (The clamping half of
  the claim holds: \<open>bounds_clamp\<close>.)
\<close>

theorem fresh_run_first_window:
  "get_blocks_bounds 0 (0 + PAGINATION_SIZE) 5000 = (1000, 2000)
   \<and> run g tm rs 5000 (init None) = run_loop g tm rs 5000 False 1000 2000 (init None)
   \<and> windows_of (run (\<lambda>_ _. ResultList []) tm rs 5000 (init None))
       = [(PyInt 1000, PyInt 2000), (PyInt 3000, PyInt 3000), (PyInt 6000, PyInt 5000)]"
proof (intro conjI)
  show "get_blocks_bounds 0 (0 + PAGINATION_SIZE) 5000 = (1000, 2000)"
    by (simp add: get_blocks_bounds_def PAGINATION_SIZE_def Let_def)
  show "run g tm rs 5000 (init None) = run_loop g tm rs 5000 False 1000 2000 (init None)"
    by (rule fresh_run_enters_loop)
  show "windows_of (run (\<lambda>_ _. ResultList []) tm rs 5000 (init None))
       = [(PyInt 1000, PyInt 2000), (PyInt 3000, PyInt 3000), (PyInt 6000, PyInt 5000)]"
    apply (simp add: fresh_run_enters_loop)
    apply (subst run_loop.simps)
    apply (simp add: set_events_empty get_blocks_bounds_def PAGINATION_SIZE_def Let_def)
    apply (subst run_loop.simps)
    apply (simp add: set_events_empty get_blocks_bounds_def PAGINATION_SIZE_def Let_def)
    apply (subst run_loop.simps)
    apply (simp add: set_events_empty get_blocks_bounds_def PAGINATION_SIZE_def Let_def
        run_loop_over windows_of_def init_def)
    done
qed

text \<open>
  C2, evaluated on the code. With an API that answers every request with an error
  dictionary, a fresh run with latest block 5000 still requests all three windows: the
  error of the first window sets \<^verbatim>\<open>self._events_over\<close>, but the loop tests its local
  variable and goes on to fetch \<open>(3000, 3000)\<close> and \<open>(6000, 5000)\<close>.
\<close>

theorem fetch_error_does_not_stop_loop:
  "windows_of (run (\<lambda>_ _. ResultDict [(''error'', ''unavailable'')]) tm rs 5000 (init None))
     = [(PyInt 1000, PyInt 2000), (PyInt 3000, PyInt 3000), (PyInt 6000, PyInt 5000)]"
  apply (simp add: fresh_run_enters_loop)
  apply (subst run_loop.simps)
  apply (simp add: set_events_error get_blocks_bounds_def PAGINATION_SIZE_def Let_def)
  apply (subst run_loop.simps)
  apply (simp add: set_events_error get_blocks_bounds_def PAGINATION_SIZE_def Let_def)
  apply (subst run_loop.simps)
  apply (simp add: set_events_error get_blocks_bounds_def PAGINATION_SIZE_def Let_def
      run_loop_over windows_of_def init_def)
  done

text \<open>
  C5, evaluated on the code. Called with the string \<^verbatim>\<open>"0"\<close> as start bound,
  \<^verbatim>\<open>_set_events\<close> logs the invalid bounds and then still calls the API with them; the
  events the API returns become the working event set.
\<close>

theorem set_events_non_integer_bound_still_fetches:
  "events (set_events (\<lambda>_ _. ResultList [ev]) (init None) (PyStr ''0'') (PyInt 1000)) = [ev]
   \<and> logged (set_events (\<lambda>_ _. ResultList [ev]) (init None) (PyStr ''0'') (PyInt 1000))
       = [''Invalid block numbers provided.'']
   \<and> requests (set_events (\<lambda>_ _. ResultList [ev]) (init None) (PyStr ''0'') (PyInt 1000))
       = [(PyStr ''0'', PyInt 1000)]"
  by (simp add: set_events_def init_def Let_def)

theorem set_events_non_integer_bound_still_fetches_witness:
  "events (set_events
             (\<lambda>_ _. ResultList
                [\<lparr>block_number = 7, timestamp = 1000, key_name = ''current_apr'',
                  data = [''0x1'', ''0x64'', ''0x32'']\<rparr>])
             (init None) (PyStr ''0'') (PyInt 1000))
     = [\<lparr>block_number = 7, timestamp = 1000, key_name = ''current_apr'',
         data = [''0x1'', ''0x64'', ''0x32'']\<rparr>]"
  using set_events_non_integer_bound_still_fetches
    [of "\<lparr>block_number = 7, timestamp = 1000, key_name = ''current_apr'',
          data = [''0x1'', ''0x64'', ''0x32'']\<rparr>"]
  by simp

subsection \<open>The fold\<close>

text \<open>
  C9. \<^verbatim>\<open>calculate_interest_rates\<close> on an empty event list returns the empty list and
  leaves the object as it was: no snapshot is built and \<^verbatim>\<open>last_block_data\<close> is
  untouched.
\<close>

theorem calculate_empty_events:
  "events self = [] \<Longrightarrow>
     calculate_interest_rates TOKEN_MAPPING resume_timestamps self = Inr (self, [])"
  by (simp add: calculate_interest_rates_def calculate_with_state_def)

theorem calculate_empty_events_witness:
  "events (init None) = []
   \<and> calculate_interest_rates Map.empty (\<lambda>_ _. 0) (init None) = Inr (init None, [])"
  using calculate_empty_events[of "init None" Map.empty "\<lambda>_ _. 0"]
  by (simp add: init_def)

text \<open>
  The loop body is the snapshot write of lines 81-82 followed by the effect on the
  accrual state.
\<close>

lemma process_event_effect:
  "process_event tm self st blocks e =
     (case event_effect tm (last_block_data (fst (emit_on_transition self st blocks e)) = None) st e of
        Inl err \<Rightarrow> Inl err
      | Inr st' \<Rightarrow>
          Inr (fst (emit_on_transition self st blocks e), st',
               snd (emit_on_transition self st blocks e)))"
  unfolding process_event_def event_effect_def emit_on_transition_def Let_def
    get_seconds_passed_def
  by (auto split: sum.splits prod.splits option.splits)

lemma event_effect_resolved:
  assumes "getitem (data e) 0 = Inr address"
  shows "event_effect tm nl st e =
     (if token_of tm e = [] \<or> key_name e \<noteq> ''current_apr''
      then Inr (st\<lparr>current_block := block_number e\<rparr>)
      else if nl \<or> token_timestamps st (token_of tm e) = 0
      then Inr (st\<lparr>token_timestamps := (token_timestamps st)(token_of tm e := timestamp e),
                    current_block := block_number e\<rparr>)
      else
        (case getitem (data e) 1 of
           Inl err \<Rightarrow> Inl err
         | Inr field1 \<Rightarrow>
        (case int_base16 field1 of
           Inl err \<Rightarrow> Inl err
         | Inr borrow_bps \<Rightarrow>
        (case getitem (data e) 2 of
           Inl err \<Rightarrow> Inl err
         | Inr field2 \<Rightarrow>
        (case int_base16 field2 of
           Inl err \<Rightarrow> Inl err
         | Inr supply_bps \<Rightarrow>
        (case accrual_delta (of_int supply_bps)
                (of_int (timestamp e - token_timestamps st (token_of tm e))) of
           Inl err \<Rightarrow> Inl err
         | Inr collateral_change \<Rightarrow>
        (case accrual_delta (of_int borrow_bps)
                (of_int (timestamp e - token_timestamps st (token_of tm e))) of
           Inl err \<Rightarrow> Inl err
         | Inr debt_change \<Rightarrow>
             update_state_cumulative_data (st\<lparr>current_timestamp := timestamp e\<rparr>)
               (token_of tm e) (block_number e) collateral_change debt_change)))))))"
  unfolding event_effect_def token_of_def assms Let_def sum.case
  by (rule refl)

lemma update_state_cumulative_data_Inr:
  assumes "update_state_cumulative_data st name b cc dc = Inr st'"
  shows "\<exists>c' d'. decimal_add (cumulative_collateral st name) cc = Inr c'
           \<and> decimal_add (cumulative_debt st name) dc = Inr d'
           \<and> st' = st\<lparr>cumulative_collateral := (cumulative_collateral st)(name := c'),
                       cumulative_debt := (cumulative_debt st)(name := d'),
                       token_timestamps := (token_timestamps st)(name := current_timestamp st),
                       current_block := b\<rparr>"
  using assms unfolding update_state_cumulative_data_def
  by (auto split: sum.splits)

text \<open>The three ways the effect on the state returns: skip, baseline, accrual.\<close>

lemma event_effect_shape:
  assumes "event_effect tm nl st e = Inr st'"
  shows "st' = st\<lparr>current_block := block_number e\<rparr>
         \<or> st' = st\<lparr>token_timestamps := (token_timestamps st)(token_of tm e := timestamp e),
                     current_block := block_number e\<rparr>
         \<or> (\<exists>f1 f2 b_bps s_bps cc dc c' d'.
               getitem (data e) 1 = Inr f1 \<and> int_base16 f1 = Inr b_bps
               \<and> getitem (data e) 2 = Inr f2 \<and> int_base16 f2 = Inr s_bps
               \<and> accrual_delta (of_int s_bps)
                    (of_int (timestamp e - token_timestamps st (token_of tm e))) = Inr cc
               \<and> accrual_delta (of_int b_bps)
                    (of_int (timestamp e - token_timestamps st (token_of tm e))) = Inr dc
               \<and> decimal_add (cumulative_collateral st (token_of tm e)) cc = Inr c'
               \<and> decimal_add (cumulative_debt st (token_of tm e)) dc = Inr d'
               \<and> st' = st\<lparr>current_timestamp := timestamp e,
                           cumulative_collateral :=
                             (cumulative_collateral st)(token_of tm e := c'),
                           cumulative_debt := (cumulative_debt st)(token_of tm e := d'),
                           token_timestamps :=
                             (token_timestamps st)(token_of tm e := timestamp e),
                           current_block := block_number e\<rparr>)"
proof (cases "getitem (data e) 0")
  case (Inl err)
  with assms show ?thesis by (simp add: event_effect_def)
next
  case (Inr address)
  from assms show ?thesis
    unfolding event_effect_resolved[OF Inr]
    by (auto split: if_splits sum.splits dest!: update_state_cumulative_data_Inr)
qed

lemma event_effect_block:
  "event_effect tm nl st e = Inr st' \<Longrightarrow> current_block st' = block_number e"
  by (drule event_effect_shape) auto

lemma process_event_Inr:
  assumes "process_event tm self st blocks e = Inr (self', st', blocks')"
  shows "(self', blocks') = emit_on_transition self st blocks e
         \<and> current_block st' = block_number e"
  using assms unfolding process_event_effect
  by (auto split: sum.splits dest: event_effect_block)

lemma emit_keeps_last_block_data:
  "last_block_data self \<noteq> None \<Longrightarrow>
     last_block_data (fst (emit_on_transition self st blocks e)) \<noteq> None"
  by (simp add: emit_on_transition_def add_block_data_def)

lemma fold_events_length:
  "fold_events tm self st blocks evs = Inr (self', st', blocks') \<Longrightarrow>
     length blocks' = length blocks + transitions_from (current_block st) evs"
proof (induction evs arbitrary: self st blocks)
  case Nil
  then show ?case by simp
next
  case (Cons e es)
  from Cons.prems obtain self1 st1 blocks1 where
    pe: "process_event tm self st blocks e = Inr (self1, st1, blocks1)"
    and rest: "fold_events tm self1 st1 blocks1 es = Inr (self', st', blocks')"
    by (auto split: sum.splits)
  from process_event_Inr[OF pe]
  have "length blocks1 = length blocks + (if current_block st \<noteq> block_number e then 1 else 0)"
    and "current_block st1 = block_number e"
    by (auto simp: emit_on_transition_def add_block_data_def split: if_splits)
  with Cons.IH[OF rest] show ?case by simp
qed

subsection \<open>When the fold returns\<close>

lemma accrual_delta_within:
  assumes "\<bar>a * s\<bar> \<le> 10 ^ k" and "int k \<le> EMAX"
  shows "\<exists>d. accrual_delta a s = Inr d \<and> \<bar>d\<bar> \<le> 10 ^ k"
proof -
  define m where "m = round_to_context (a * s)"
  define p where "p = round_to_context (m / SECONDS_IN_YEAR)"
  define d where "d = round_to_context (p * percents_decimals_shift)"
  have m: "decimal_mul a s = Inr m" and mb: "\<bar>m\<bar> \<le> 10 ^ k"
    using context_round_within[OF assms] round_to_context_abs_le[OF assms(1)]
    by (simp_all add: decimal_mul_def m_def)
  have "\<bar>m / SECONDS_IN_YEAR\<bar> \<le> \<bar>m\<bar>"
    by (simp add: SECONDS_IN_YEAR_def divide_le_eq)
  with mb have pb0: "\<bar>m / SECONDS_IN_YEAR\<bar> \<le> 10 ^ k" by linarith
  have p: "decimal_truediv m SECONDS_IN_YEAR = Inr p" and pb: "\<bar>p\<bar> \<le> 10 ^ k"
    using context_round_within[OF pb0 assms(2)] round_to_context_abs_le[OF pb0]
    by (simp_all add: decimal_truediv_def p_def SECONDS_IN_YEAR_def)
  have "\<bar>p * percents_decimals_shift\<bar> \<le> \<bar>p\<bar>"
    by (simp add: percents_decimals_shift_def abs_mult divide_le_eq)
  with pb have db0: "\<bar>p * percents_decimals_shift\<bar> \<le> 10 ^ k" by linarith
  have d: "decimal_mul p percents_decimals_shift = Inr d" and db: "\<bar>d\<bar> \<le> 10 ^ k"
    using context_round_within[OF db0 assms(2)] round_to_context_abs_le[OF db0]
    by (simp_all add: decimal_mul_def d_def)
  show ?thesis using m p d db by (simp add: accrual_delta_def)
qed

lemma decimal_add_within:
  assumes "\<bar>a\<bar> \<le> 10 ^ j" and "\<bar>d\<bar> \<le> 10 ^ j" and "int j + 1 \<le> EMAX"
  shows "\<exists>r. decimal_add a d = Inr r \<and> \<bar>r\<bar> \<le> 10 ^ Suc j"
proof -
  have "\<bar>a + d\<bar> \<le> 2 * 10 ^ j" using assms(1,2) by linarith
  also have "\<dots> \<le> (10::rat) ^ Suc j" by simp
  finally have b: "\<bar>a + d\<bar> \<le> 10 ^ Suc j" .
  have "int (Suc j) \<le> EMAX" using assms(3) by simp
  from context_round_within[OF b this] round_to_context_abs_le[OF b]
  show ?thesis by (simp add: decimal_add_def)
qed

lemma state_within_mono:
  "state_within M J st \<Longrightarrow> J \<le> J' \<Longrightarrow> state_within M J' st"
proof -
  assume a: "state_within M J st" and le: "J \<le> J'"
  have "(10::rat) ^ J \<le> 10 ^ J'" using le by (intro power_increasing) simp_all
  with a show ?thesis unfolding state_within_def by (meson order_trans)
qed

lemma event_effect_returns:
  assumes rd: "readable tm e" and ew: "event_within M e" and sw: "state_within M J st"
    and mk: "2 * M * M \<le> 10 ^ K" and kj: "K \<le> J" and je: "int J + 1 \<le> EMAX"
  shows "\<exists>st'. event_effect tm nl st e = Inr st' \<and> state_within M (Suc J) st'"
proof -
  from rd obtain address where g0: "getitem (data e) 0 = Inr address"
    unfolding readable_def by (auto split: sum.splits)
  note eff = event_effect_resolved[OF g0]
  have te: "\<bar>timestamp e\<bar> \<le> M" using ew by (simp add: event_within_def)
  have up: "state_within M (Suc J) st" using sw by (rule state_within_mono) simp
  show ?thesis
  proof (cases "token_of tm e = [] \<or> key_name e \<noteq> ''current_apr''")
    case True
    then show ?thesis unfolding eff using up by (auto simp: state_within_def)
  next
    case rate: False
    let ?n = "token_of tm e"
    show ?thesis
    proof (cases "nl \<or> token_timestamps st ?n = 0")
      case True
      have "state_within M (Suc J)
              (st\<lparr>token_timestamps := (token_timestamps st)(?n := timestamp e),
                  current_block := block_number e\<rparr>)"
        using up te by (simp add: state_within_def)
      with rate True show ?thesis unfolding eff by auto
    next
      case False
      from rd rate g0 have "rates_decode e" by (simp add: readable_def)
      then obtain f1 f2 b s where
        g: "getitem (data e) 1 = Inr f1" "getitem (data e) 2 = Inr f2"
        and pr: "int_base16 f1 = Inr b" "int_base16 f2 = Inr s"
        unfolding rates_decode_def by (auto split: sum.splits)
      from ew g pr have bs: "\<bar>b\<bar> \<le> M" "\<bar>s\<bar> \<le> M" by (simp_all add: event_within_def)
      let ?secs = "timestamp e - token_timestamps st ?n"
      have tn: "\<bar>token_timestamps st ?n\<bar> \<le> M" using sw by (simp add: state_within_def)
      have secs: "\<bar>?secs\<bar> \<le> 2 * M" using te tn by linarith
      have M0: "0 \<le> M" using te by linarith
      have ke: "int K \<le> EMAX" using kj je by linarith
      have kj': "(10::rat) ^ K \<le> 10 ^ J" using kj by (intro power_increasing) simp_all
      have prod: "\<And>r. \<bar>r\<bar> \<le> M \<Longrightarrow> \<bar>(of_int r :: rat) * of_int ?secs\<bar> \<le> 10 ^ K"
      proof -
        fix r :: int
        assume r: "\<bar>r\<bar> \<le> M"
        have "\<bar>r * ?secs\<bar> = \<bar>r\<bar> * \<bar>?secs\<bar>" by (simp add: abs_mult)
        also have "\<dots> \<le> M * (2 * M)" using r secs M0 by (intro mult_mono) simp_all
        also have "\<dots> \<le> 10 ^ K" using mk by (simp add: mult.commute mult.left_commute)
        finally have "\<bar>r * ?secs\<bar> \<le> 10 ^ K" .
        then have "(of_int \<bar>r * ?secs\<bar> :: rat) \<le> of_int (10 ^ K)" by (simp only: of_int_le_iff)
        then show "\<bar>(of_int r :: rat) * of_int ?secs\<bar> \<le> 10 ^ K" by simp
      qed
      from accrual_delta_within[OF prod[OF bs(2)] ke] obtain cc where
        cc: "accrual_delta (of_int s) (of_int ?secs) = Inr cc" and ccb: "\<bar>cc\<bar> \<le> 10 ^ K"
        by blast
      from accrual_delta_within[OF prod[OF bs(1)] ke] obtain dc where
        dc: "accrual_delta (of_int b) (of_int ?secs) = Inr dc" and dcb: "\<bar>dc\<bar> \<le> 10 ^ K"
        by blast
      have cb: "\<bar>cumulative_collateral st ?n\<bar> \<le> 10 ^ J"
        and db: "\<bar>cumulative_debt st ?n\<bar> \<le> 10 ^ J"
        using sw by (simp_all add: state_within_def)
      have ccj: "\<bar>cc\<bar> \<le> 10 ^ J" and dcj: "\<bar>dc\<bar> \<le> 10 ^ J" using ccb dcb kj' by linarith+
      from decimal_add_within[OF cb ccj je] obtain c' where
        c': "decimal_add (cumulative_collateral st ?n) cc = Inr c'" and c'b: "\<bar>c'\<bar> \<le> 10 ^ Suc J"
        by blast
      from decimal_add_within[OF db dcj je] obtain d' where
        d': "decimal_add (cumulative_debt st ?n) dc = Inr d'" and d'b: "\<bar>d'\<bar> \<le> 10 ^ Suc J"
        by blast
      let ?st' = "st\<lparr>current_timestamp := timestamp e,
                      cumulative_collateral := (cumulative_collateral st)(?n := c'),
                      cumulative_debt := (cumulative_debt st)(?n := d'),
                      token_timestamps := (token_timestamps st)(?n := timestamp e),
                      current_block := block_number e\<rparr>"
      have r: "event_effect tm nl st e = Inr ?st'"
        unfolding eff using rate False g pr cc dc c' d'
        by (simp add: update_state_cumulative_data_def)
      have "state_within M (Suc J) ?st'"
        using up te c'b d'b by (simp add: state_within_def)
      with r show ?thesis by blast
    qed
  qed
qed

lemma fold_events_returns:
  assumes "list_all (readable tm) evs" and "list_all (event_within M) evs"
    and "state_within M J st" and "2 * M * M \<le> 10 ^ K" and "K \<le> J"
    and "int J + int (length evs) \<le> EMAX"
  shows "\<exists>r. fold_events tm self st blocks evs = Inr r"
  using assms
proof (induction evs arbitrary: self st blocks J)
  case Nil
  then show ?case by simp
next
  case (Cons e es)
  have je: "int J + 1 \<le> EMAX" using Cons.prems(6) by simp
  from event_effect_returns[OF _ _ Cons.prems(3,4,5) je, of tm e] Cons.prems(1,2)
  obtain st' where
    eff: "event_effect tm (last_block_data (fst (emit_on_transition self st blocks e)) = None) st e
            = Inr st'"
    and sw: "state_within M (Suc J) st'"
    by auto
  have pe: "process_event tm self st blocks e =
              Inr (fst (emit_on_transition self st blocks e), st',
                   snd (emit_on_transition self st blocks e))"
    unfolding process_event_effect eff by simp
  have "\<exists>r. fold_events tm (fst (emit_on_transition self st blocks e)) st'
               (snd (emit_on_transition self st blocks e)) es = Inr r"
    using Cons.prems by (intro Cons.IH[OF _ _ sw]) simp_all
  then show ?case unfolding fold_events.simps pe by simp
qed

lemma calculate_returns:
  assumes rd: "list_all (readable tm) (events self)" and wl: "within_limits M K rs self"
  shows "\<exists>self' blocks_data. calculate_interest_rates tm rs self = Inr (self', blocks_data)"
proof (cases "events self")
  case Nil
  then show ?thesis
    by (simp add: calculate_interest_rates_def calculate_with_state_def)
next
  case (Cons e es)
  let ?st0 = "InterestRateState_init rs (block_number e) (last_block_data self)"
  from wl have mk: "2 * M * M \<le> 10 ^ K"
    and len: "int K + int (length (events self)) \<le> EMAX"
    and ew: "list_all (event_within M) (events self)"
    and seeds: "\<And>name. \<bar>seed_timestamp rs self name\<bar> \<le> M
                  \<and> \<bar>seed_collateral self name\<bar> \<le> 10 ^ K
                  \<and> \<bar>seed_debt self name\<bar> \<le> 10 ^ K"
    unfolding within_limits_def by simp_all
  have sw: "state_within M K ?st0"
    using seeds
    by (cases "last_block_data self")
      (simp_all add: state_within_def InterestRateState_init_def seed_timestamp_def
        seed_collateral_def seed_debt_def)
  from fold_events_returns[OF rd ew sw mk order_refl len, of self "[]"]
  obtain self1 st1 blocks1 where
    f: "fold_events tm self ?st0 [] (events self) = Inr (self1, st1, blocks1)"
    by (metis prod_cases3)
  with Cons show ?thesis
    by (simp add: calculate_interest_rates_def calculate_with_state_def Let_def
        add_block_data_def)
qed

text \<open>
  C4. Whenever \<^verbatim>\<open>calculate_interest_rates\<close> returns, whatever the events, the number of
  snapshots it returns is 0 for the empty list and otherwise the number of block-number
  transitions in the list plus one (the final write after the loop), so at least one.
  And it does return when every event is readable and the sizes are within the limits
  of the Decimal context; otherwise it may raise (IndexError, ValueError, Overflow) and
  return no list.
\<close>

theorem snapshot_count:
  "(\<forall>self' blocks_data.
      calculate_interest_rates TOKEN_MAPPING resume_timestamps self = Inr (self', blocks_data)
      \<longrightarrow> length blocks_data
            = (if events self = [] then 0 else Suc (transitions (events self))))
   \<and> (list_all (readable TOKEN_MAPPING) (events self)
        \<and> within_limits M K resume_timestamps self
      \<longrightarrow> (\<exists>self' blocks_data.
             calculate_interest_rates TOKEN_MAPPING resume_timestamps self
               = Inr (self', blocks_data)))"
proof (intro conjI allI impI)
  fix self' blocks_data
  assume r: "calculate_interest_rates TOKEN_MAPPING resume_timestamps self
               = Inr (self', blocks_data)"
  show "length blocks_data = (if events self = [] then 0 else Suc (transitions (events self)))"
  proof (cases "events self")
    case Nil
    with r show ?thesis
      by (simp add: calculate_interest_rates_def calculate_with_state_def)
  next
    case (Cons e es)
    let ?st0 = "InterestRateState_init resume_timestamps (block_number e) (last_block_data self)"
    from r Cons obtain self1 st1 blocks1 where
      f: "fold_events TOKEN_MAPPING self ?st0 [] (events self) = Inr (self1, st1, blocks1)"
      and b: "blocks_data = blocks1 @ [build_interest_rate_model st1 HASHSTACK_ID]"
      unfolding calculate_interest_rates_def calculate_with_state_def Let_def add_block_data_def
      by (auto split: sum.splits)
    have cb: "current_block ?st0 = block_number e"
      by (simp add: InterestRateState_init_def split: option.splits)
    from fold_events_length[OF f] cb Cons
    have "length blocks1 = transitions (events self)"
      by (simp add: transitions_def)
    with b Cons show ?thesis by simp
  qed
next
  assume "list_all (readable TOKEN_MAPPING) (events self)
          \<and> within_limits M K resume_timestamps self"
  then show "\<exists>self' blocks_data.
           calculate_interest_rates TOKEN_MAPPING resume_timestamps self
             = Inr (self', blocks_data)"
    using calculate_returns by blast
qed

lemma apr_event_sel:
  "block_number (apr_event b t a x y) = b" "timestamp (apr_event b t a x y) = t"
  "key_name (apr_event b t a x y) = ''current_apr''"
  "getitem (data (apr_event b t a x y)) 0 = Inr a"
  "getitem (data (apr_event b t a x y)) (Suc 0) = Inr x"
  "getitem (data (apr_event b t a x y)) 2 = Inr y"
  by (simp_all add: apr_event_def getitem_def)

lemma token_of_apr_event:
  "token_of tm (apr_event b t a x y) = (case tm a of None \<Rightarrow> [] | Some n \<Rightarrow> n)"
  by (simp add: token_of_def apr_event_sel)

lemma int_base16_literals:
  "int_base16 ''0x0'' = Inr 0" "int_base16 ''0x64'' = Inr 100" "int_base16 ''0x32'' = Inr 50"
  by (simp_all add: int_base16_def strip_def is_space_def hex_number_def hex_digit_def)

lemma example_tokens_simps:
  "example_tokens ''0x1'' = Some ''ETH''" "example_tokens ''0x2'' = Some ''USDC''"
  "example_tokens ''0x9'' = None"
  by (simp_all add: example_tokens_def)

theorem snapshot_count_witness:
  "list_all (readable example_tokens)
     [apr_event 100 31537000 ''0x1'' ''0x64'' ''0x32'',
      \<lparr>block_number = 100, timestamp = 31537010, key_name = ''Transfer'', data = [''0x9'']\<rparr>,
      apr_event 101 31537020 ''0x1'' ''0x64'' ''0x32'']
   \<and> within_limits 100000000 17 (\<lambda>snap _. snapshot_timestamp snap)
        ((init (Some example_snapshot))\<lparr>events :=
           [apr_event 100 31537000 ''0x1'' ''0x64'' ''0x32'',
            \<lparr>block_number = 100, timestamp = 31537010, key_name = ''Transfer'',
             data = [''0x9'']\<rparr>,
            apr_event 101 31537020 ''0x1'' ''0x64'' ''0x32'']\<rparr>)
   \<and> (\<exists>self' blocks_data.
         calculate_interest_rates example_tokens (\<lambda>snap _. snapshot_timestamp snap)
           ((init (Some example_snapshot))\<lparr>events :=
              [apr_event 100 31537000 ''0x1'' ''0x64'' ''0x32'',
               \<lparr>block_number = 100, timestamp = 31537010, key_name = ''Transfer'',
                data = [''0x9'']\<rparr>,
               apr_event 101 31537020 ''0x1'' ''0x64'' ''0x32'']\<rparr>)
           = Inr (self', blocks_data)
         \<and> length blocks_data = 2)"
proof -
  let ?skip = "\<lparr>block_number = 100, timestamp = 31537010, key_name = ''Transfer'',
                data = [''0x9'']\<rparr>"
  let ?evs = "[apr_event 100 31537000 ''0x1'' ''0x64'' ''0x32'', ?skip,
               apr_event 101 31537020 ''0x1'' ''0x64'' ''0x32'']"
  let ?rs = "\<lambda>snap (_::string). snapshot_timestamp snap"
  let ?self = "(init (Some example_snapshot))\<lparr>events := ?evs\<rparr>"
  have h1: "list_all (readable example_tokens) ?evs"
    by code_simp
  have ew: "list_all (event_within 100000000) ?evs"
    by code_simp
  have h2: "within_limits 100000000 17 ?rs ?self"
    unfolding within_limits_def using ew
    by (simp add: EMAX_def seed_timestamp_def seed_collateral_def seed_debt_def init_def
        example_snapshot_def)
  have e: "events ?self = ?evs" by simp
  from snapshot_count[of example_tokens ?rs ?self 100000000 17]
  have a: "\<And>self' blocks_data.
             calculate_interest_rates example_tokens ?rs ?self = Inr (self', blocks_data)
             \<Longrightarrow> length blocks_data = Suc (transitions ?evs)"
    and b: "\<exists>self' blocks_data.
             calculate_interest_rates example_tokens ?rs ?self = Inr (self', blocks_data)"
    using h1 h2 unfolding e by simp_all
  have t: "Suc (transitions ?evs) = 2"
    by (simp add: transitions_def apr_event_sel)
  from a b t h1 h2 show ?thesis by metis
qed

subsection \<open>One rate event on a fresh run\<close>

text \<open>
  C1, evaluated on the code. Line 91 reads
  \<^verbatim>\<open>not self.last_block_data or token_timestamps[token_name] == 0\<close>. On a run with no
  persisted snapshot, as long as no snapshot has been written in the fold (the event's
  block is the current block), \<^verbatim>\<open>self.last_block_data\<close> is empty, so every
  \<^verbatim>\<open>current_apr\<close> event of a known token takes the baseline branch, whatever the token's
  stored timestamp and without reading the rate fields: the event's timestamp is
  stored and nothing accrues. A token's second event in the first block of a fresh run
  is such an event, where the comment of line 90 (\<^verbatim>\<open>Set initial timestamp values for
  the first token event\<close>) and the spec's example of two events have the accrual.
\<close>

theorem fresh_run_baselines_every_event:
  assumes "last_block_data self = None" and "current_block st = block_number e"
    and "getitem (data e) 0 = Inr address" and "TOKEN_MAPPING address = Some name"
    and "name \<noteq> []" and "key_name e = ''current_apr''"
  shows "process_event TOKEN_MAPPING self st blocks_data e
           = Inr (self,
                  st\<lparr>token_timestamps := (token_timestamps st)(name := timestamp e),
                     current_block := block_number e\<rparr>,
                  blocks_data)"
proof -
  have em: "emit_on_transition self st blocks_data e = (self, blocks_data)"
    using assms(2) by (simp add: emit_on_transition_def)
  have tk: "token_of TOKEN_MAPPING e = name"
    using assms(3,4) by (simp add: token_of_def)
  show ?thesis
    unfolding process_event_effect em fst_conv snd_conv event_effect_resolved[OF assms(3)] tk
    using assms(1,5,6) by simp
qed

theorem fresh_run_baselines_every_event_witness:
  "last_block_data (init None) = None
   \<and> token_timestamps example_state ''ETH'' = 1000
   \<and> claimed_token_view (init None) example_state
        (apr_event 100 31537000 ''0x1'' ''0x64'' ''0x32'') ''ETH'' 100 50
       = Inr (31537000, 1 / 200, 1 / 100)
   \<and> step_view (process_event example_tokens (init None) example_state []
        (apr_event 100 31537000 ''0x1'' ''0x64'' ''0x32'')) ''ETH''
       = Inr (31537000, 0, 0)
   \<and> accumulator_series
        (calculate_interest_rates example_tokens (\<lambda>_ _. 0)
           ((init None)\<lparr>events :=
              [apr_event 100 1000 ''0x1'' ''0x0'' ''0x0'',
               apr_event 100 31537000 ''0x1'' ''0x64'' ''0x32'']\<rparr>))
        ''ETH''
       = [(0, 0)]"
proof -
  let ?e = "apr_event 100 31537000 ''0x1'' ''0x64'' ''0x32''"
  have h1: "last_block_data (init None) = None" by (simp add: init_def)
  have h2: "current_block example_state = block_number ?e"
    by (simp add: example_state_def apr_event_sel)
  have n: "''ETH'' \<noteq> []" by simp
  have ts: "token_timestamps example_state ''ETH'' = 1000" by (simp add: example_state_def)
  have c: "claimed_token_view (init None) example_state ?e ''ETH'' 100 50
             = Inr (31537000, 1 / 200, 1 / 100)"
    by code_simp
  have f: "accumulator_series
        (calculate_interest_rates example_tokens (\<lambda>_ _. 0)
           ((init None)\<lparr>events :=
              [apr_event 100 1000 ''0x1'' ''0x0'' ''0x0'',
               apr_event 100 31537000 ''0x1'' ''0x64'' ''0x32'']\<rparr>))
        ''ETH''
       = [(0, 0)]"
    by code_simp
  have "step_view (process_event example_tokens (init None) example_state [] ?e) ''ETH''
          = Inr (31537000, 0, 0)"
    unfolding fresh_run_baselines_every_event[where self = "init None" and st = example_state
        and e = "?e" and address = "''0x1''" and name = "''ETH''"
        and TOKEN_MAPPING = example_tokens and blocks_data = "[]",
        OF h1 h2 apr_event_sel(4) example_tokens_simps(1) n apr_event_sel(3)]
    by (simp add: step_view_def token_view_def example_state_def apr_event_sel)
  with h1 ts c f show ?thesis by simp
qed

subsection \<open>Accumulators over a fold\<close>

lemma nonneg_bps_readable: "nonneg_bps e \<Longrightarrow> readable tm e"
proof -
  assume nb: "nonneg_bps e"
  then obtain f1 where "getitem (data e) 1 = Inr f1"
    unfolding nonneg_bps_def by (auto split: sum.splits)
  then have "getitem (data e) 0 = Inr (data e ! 0)"
    unfolding getitem_def by (auto split: if_splits)
  moreover from nb have "rates_decode e"
    unfolding nonneg_bps_def rates_decode_def by (auto split: sum.splits)
  ultimately show ?thesis by (simp add: readable_def)
qed

lemma accrual_delta_nonneg:
  assumes "accrual_delta a s = Inr d" and "0 \<le> a" and "0 \<le> s"
  shows "0 \<le> d"
proof -
  from assms(1) obtain m p where
    m: "decimal_mul a s = Inr m" and p: "decimal_truediv m SECONDS_IN_YEAR = Inr p"
    and d: "decimal_mul p percents_decimals_shift = Inr d"
    unfolding accrual_delta_def by (auto split: sum.splits)
  from m have "m = round_to_context (a * s)"
    unfolding decimal_mul_def by (rule context_round_value)
  then have m0: "0 \<le> m" using assms(2,3) by (simp add: round_to_context_nonneg)
  from p have "p = round_to_context (m / SECONDS_IN_YEAR)"
    unfolding decimal_truediv_def by (auto simp: SECONDS_IN_YEAR_def dest: context_round_value)
  then have p0: "0 \<le> p" using m0 by (simp add: round_to_context_nonneg SECONDS_IN_YEAR_def)
  from d have "d = round_to_context (p * percents_decimals_shift)"
    unfolding decimal_mul_def by (rule context_round_value)
  then show ?thesis using p0 by (simp add: round_to_context_nonneg percents_decimals_shift_def)
qed

lemma decimal_add_lower:
  assumes "decimal_add a d = Inr r" and "representable lo" and "lo \<le> a" and "0 \<le> d"
  shows "lo \<le> r"
proof -
  from assms(1) have r: "r = round_to_context (a + d)"
    unfolding decimal_add_def by (rule context_round_value)
  have "lo \<le> a + d" using assms(3,4) by simp
  from round_to_context_mono[OF this] show ?thesis
    using assms(2) by (simp add: r representable_def)
qed


lemma event_effect_cases [consumes 1, case_names skip baseline accrual]:
  assumes "event_effect tm nl st e = Inr st'"
  obtains (skip) "st' = st\<lparr>current_block := block_number e\<rparr>"
    | (baseline)
        "st' = st\<lparr>token_timestamps := (token_timestamps st)(token_of tm e := timestamp e),
                  current_block := block_number e\<rparr>"
    | (accrual) f1 f2 b_bps s_bps cc dc c' d' where
        "getitem (data e) 1 = Inr f1" "int_base16 f1 = Inr b_bps"
        "getitem (data e) 2 = Inr f2" "int_base16 f2 = Inr s_bps"
        "accrual_delta (of_int s_bps)
           (of_int (timestamp e - token_timestamps st (token_of tm e))) = Inr cc"
        "accrual_delta (of_int b_bps)
           (of_int (timestamp e - token_timestamps st (token_of tm e))) = Inr dc"
        "decimal_add (cumulative_collateral st (token_of tm e)) cc = Inr c'"
        "decimal_add (cumulative_debt st (token_of tm e)) dc = Inr d'"
        "st' = st\<lparr>current_timestamp := timestamp e,
                  cumulative_collateral := (cumulative_collateral st)(token_of tm e := c'),
                  cumulative_debt := (cumulative_debt st)(token_of tm e := d'),
                  token_timestamps := (token_timestamps st)(token_of tm e := timestamp e),
                  current_block := block_number e\<rparr>"
  using event_effect_shape[OF assms]
  by (elim disjE exE conjE) (rule skip, assumption, rule baseline, assumption,
      (rule accrual; assumption))

lemma event_effect_lower:
  assumes ee: "event_effect tm nl st e = Inr st'"
    and nb: "nonneg_bps e"
    and ts: "\<forall>t. token_timestamps st t \<le> timestamp e"
    and rep: "\<forall>t. representable (lc t) \<and> representable (ld t)"
    and lo: "\<forall>t. lc t \<le> cumulative_collateral st t \<and> ld t \<le> cumulative_debt st t"
  shows "(\<forall>t. lc t \<le> cumulative_collateral st' t \<and> ld t \<le> cumulative_debt st' t)
         \<and> (\<forall>t. token_timestamps st' t \<le> timestamp e)"
proof -
  let ?n = "token_of tm e"
  let ?secs = "timestamp e - token_timestamps st ?n"
  from ee show ?thesis
  proof (cases rule: event_effect_cases[where tm = tm])
    case skip
    with lo ts show ?thesis by simp
  next
    case baseline
    with lo ts show ?thesis by simp
  next
    case (accrual f1 f2 b_bps s_bps cc dc c' d')
    from nb accrual(1-4) have nn: "0 \<le> b_bps" "0 \<le> s_bps"
      unfolding nonneg_bps_def by simp_all
    have secs: "0 \<le> ?secs" using ts by simp
    have cc0: "0 \<le> cc" using nn(2) secs by (intro accrual_delta_nonneg[OF accrual(5)]) simp_all
    have dc0: "0 \<le> dc" using nn(1) secs by (intro accrual_delta_nonneg[OF accrual(6)]) simp_all
    have c: "lc ?n \<le> c'" using rep lo cc0 by (intro decimal_add_lower[OF accrual(7)]) simp_all
    have d: "ld ?n \<le> d'" using rep lo dc0 by (intro decimal_add_lower[OF accrual(8)]) simp_all
    show ?thesis unfolding accrual(9) using c d lo ts by simp
  qed
qed


lemma process_event_state:
  "process_event tm self st blocks e = Inr (self', st', blocks') \<Longrightarrow>
     \<exists>nl. event_effect tm nl st e = Inr st'"
  unfolding process_event_effect by (auto split: sum.splits)

lemma fold_events_lower:
  assumes "fold_events tm self st blocks evs = Inr (self', st', blocks')"
    and "list_all nonneg_bps evs" and "sorted (map timestamp evs)"
    and "\<forall>e\<in>set evs. \<forall>t. token_timestamps st t \<le> timestamp e"
    and "\<forall>t. representable (lc t) \<and> representable (ld t)"
    and "\<forall>t. lc t \<le> cumulative_collateral st t \<and> ld t \<le> cumulative_debt st t"
    and "\<forall>snap\<in>set blocks. \<forall>t. lc t \<le> collateral snap t \<and> ld t \<le> debt snap t"
  shows "(\<forall>t. lc t \<le> cumulative_collateral st' t \<and> ld t \<le> cumulative_debt st' t)
         \<and> (\<forall>snap\<in>set blocks'. \<forall>t. lc t \<le> collateral snap t \<and> ld t \<le> debt snap t)"
  using assms
proof (induction evs arbitrary: self st blocks)
  case Nil
  then show ?case by simp
next
  case (Cons e es)
  from Cons.prems(1) obtain self1 st1 blocks1 where
    pe: "process_event tm self st blocks e = Inr (self1, st1, blocks1)"
    and rest: "fold_events tm self1 st1 blocks1 es = Inr (self', st', blocks')"
    by (auto split: sum.splits)
  from process_event_state[OF pe] obtain nl where ee: "event_effect tm nl st e = Inr st1"
    by blast
  have nb: "nonneg_bps e" and nbs: "list_all nonneg_bps es" using Cons.prems(2) by simp_all
  have ts: "\<forall>t. token_timestamps st t \<le> timestamp e" using Cons.prems(4) by simp
  from event_effect_lower[OF ee nb ts Cons.prems(5) Cons.prems(6)]
  have step1: "\<forall>t. lc t \<le> cumulative_collateral st1 t \<and> ld t \<le> cumulative_debt st1 t"
    and step2: "\<forall>t. token_timestamps st1 t \<le> timestamp e"
    by simp_all
  have srt: "sorted (map timestamp es)" and later: "\<forall>e'\<in>set es. timestamp e \<le> timestamp e'"
    using Cons.prems(3) by simp_all
  have ts1: "\<forall>e'\<in>set es. \<forall>t. token_timestamps st1 t \<le> timestamp e'"
    using step2 later by (meson order_trans)
  from process_event_Inr[OF pe]
  have em: "(self1, blocks1) = emit_on_transition self st blocks e" by simp
  have b1: "\<forall>snap\<in>set blocks1. \<forall>t. lc t \<le> collateral snap t \<and> ld t \<le> debt snap t"
    using em Cons.prems(6,7)
    by (auto simp: emit_on_transition_def add_block_data_def build_interest_rate_model_def
        split: if_splits)
  from Cons.IH[OF rest nbs srt ts1 Cons.prems(5) step1 b1] show ?case .
qed

text \<open>
  C7, as amended. When every event carries non-negative basis-point values, the event
  timestamps do not decrease along the list and none is earlier than the timestamp a
  token starts from, and the seed accumulators fit the context precision, then in every
  snapshot that \<^verbatim>\<open>calculate_interest_rates\<close> returns (the last one is the state the fold
  ends in, stored as \<^verbatim>\<open>last_block_data\<close>) each token's cumulative collateral and
  cumulative debt are at least their seed values. And the call does return when the
  sizes are within the limits of the Decimal context.
\<close>

theorem accumulators_never_below_seed:
  assumes "list_all nonneg_bps (events self)"
    and "sorted (map timestamp (events self))"
    and "\<forall>e\<in>set (events self). \<forall>name.
           seed_timestamp resume_timestamps self name \<le> timestamp e"
    and "\<forall>name. representable (seed_collateral self name)
                 \<and> representable (seed_debt self name)"
  shows "(\<forall>self' blocks_data.
            calculate_interest_rates TOKEN_MAPPING resume_timestamps self
              = Inr (self', blocks_data)
            \<longrightarrow> (\<forall>snap\<in>set blocks_data. \<forall>name.
                    seed_collateral self name \<le> collateral snap name
                    \<and> seed_debt self name \<le> debt snap name)
                \<and> (events self \<noteq> [] \<longrightarrow> last_block_data self' = Some (last blocks_data)))
         \<and> (within_limits M K resume_timestamps self
            \<longrightarrow> (\<exists>self' blocks_data.
                   calculate_interest_rates TOKEN_MAPPING resume_timestamps self
                     = Inr (self', blocks_data)))"
proof (rule conjI)
  show "\<forall>self' blocks_data.
            calculate_interest_rates TOKEN_MAPPING resume_timestamps self
              = Inr (self', blocks_data)
            \<longrightarrow> (\<forall>snap\<in>set blocks_data. \<forall>name.
                    seed_collateral self name \<le> collateral snap name
                    \<and> seed_debt self name \<le> debt snap name)
                \<and> (events self \<noteq> [] \<longrightarrow> last_block_data self' = Some (last blocks_data))"
  proof (intro allI impI)
    fix self' blocks_data
    assume r: "calculate_interest_rates TOKEN_MAPPING resume_timestamps self
                 = Inr (self', blocks_data)"
    show "(\<forall>snap\<in>set blocks_data. \<forall>name.
              seed_collateral self name \<le> collateral snap name
              \<and> seed_debt self name \<le> debt snap name)
          \<and> (events self \<noteq> [] \<longrightarrow> last_block_data self' = Some (last blocks_data))"
    proof (cases "events self")
      case Nil
      with r show ?thesis
        by (simp add: calculate_interest_rates_def calculate_with_state_def)
    next
      case (Cons e es)
      let ?st0 = "InterestRateState_init resume_timestamps (block_number e) (last_block_data self)"
      from r Cons obtain self1 st1 blocks1 where
        f: "fold_events TOKEN_MAPPING self ?st0 [] (events self) = Inr (self1, st1, blocks1)"
        and b: "blocks_data = blocks1 @ [build_interest_rate_model st1 HASHSTACK_ID]"
        and s': "self' = self1\<lparr>last_block_data :=
                                  Some (build_interest_rate_model st1 HASHSTACK_ID)\<rparr>"
        unfolding calculate_interest_rates_def calculate_with_state_def Let_def
          add_block_data_def
        by (auto split: sum.splits)
      have ts0: "\<forall>e\<in>set (events self). \<forall>t. token_timestamps ?st0 t \<le> timestamp e"
        using assms(3)
        by (cases "last_block_data self")
          (simp_all add: InterestRateState_init_def seed_timestamp_def)
      have lo0: "\<forall>t. seed_collateral self t \<le> cumulative_collateral ?st0 t
                     \<and> seed_debt self t \<le> cumulative_debt ?st0 t"
        by (simp add: InterestRateState_init_def seed_collateral_def seed_debt_def
            split: option.splits)
      have b0: "\<forall>snap\<in>set []. \<forall>t. seed_collateral self t \<le> collateral snap t
                                    \<and> seed_debt self t \<le> debt snap t"
        by simp
      from fold_events_lower[OF f assms(1,2) ts0 assms(4) lo0 b0]
      have st1: "\<forall>t. seed_collateral self t \<le> cumulative_collateral st1 t
                     \<and> seed_debt self t \<le> cumulative_debt st1 t"
        and bl1: "\<forall>snap\<in>set blocks1. \<forall>t. seed_collateral self t \<le> collateral snap t
                                    \<and> seed_debt self t \<le> debt snap t"
        by simp_all
      show ?thesis
        unfolding b s' using st1 bl1 Cons
        by (auto simp: build_interest_rate_model_def)
    qed
  qed
next
  show "within_limits M K resume_timestamps self
          \<longrightarrow> (\<exists>self' blocks_data.
                 calculate_interest_rates TOKEN_MAPPING resume_timestamps self
                   = Inr (self', blocks_data))"
  proof
    assume wl: "within_limits M K resume_timestamps self"
    have rd: "list_all (readable TOKEN_MAPPING) (events self)"
      using assms(1) by (simp add: list_all_iff nonneg_bps_readable)
    from calculate_returns[OF rd wl]
    show "\<exists>self' blocks_data.
            calculate_interest_rates TOKEN_MAPPING resume_timestamps self
              = Inr (self', blocks_data)" .
  qed
qed


theorem accumulators_never_below_seed_witness:
  "list_all nonneg_bps
     [apr_event 100 31537000 ''0x1'' ''0x64'' ''0x32'',
      apr_event 100 31537000 ''0x2'' ''0x64'' ''0x32'',
      apr_event 101 63073000 ''0x1'' ''0x64'' ''0x32'']
   \<and> sorted (map timestamp
        [apr_event 100 31537000 ''0x1'' ''0x64'' ''0x32'',
         apr_event 100 31537000 ''0x2'' ''0x64'' ''0x32'',
         apr_event 101 63073000 ''0x1'' ''0x64'' ''0x32''])
   \<and> representable (1 / 4) \<and> representable (1 / 2)
   \<and> within_limits 100000000 17 (\<lambda>snap _. snapshot_timestamp snap)
        ((init (Some seeded_snapshot))\<lparr>events :=
           [apr_event 100 31537000 ''0x1'' ''0x64'' ''0x32'',
            apr_event 100 31537000 ''0x2'' ''0x64'' ''0x32'',
            apr_event 101 63073000 ''0x1'' ''0x64'' ''0x32'']\<rparr>)
   \<and> (\<exists>self' blocks_data.
         calculate_interest_rates example_tokens (\<lambda>snap _. snapshot_timestamp snap)
           ((init (Some seeded_snapshot))\<lparr>events :=
              [apr_event 100 31537000 ''0x1'' ''0x64'' ''0x32'',
               apr_event 100 31537000 ''0x2'' ''0x64'' ''0x32'',
               apr_event 101 63073000 ''0x1'' ''0x64'' ''0x32'']\<rparr>)
           = Inr (self', blocks_data)
         \<and> list_all (\<lambda>snap. 1 / 4 \<le> collateral snap ''ETH'' \<and> 1 / 2 \<le> debt snap ''ETH'')
              blocks_data)
   \<and> accumulator_series
        (calculate_interest_rates example_tokens (\<lambda>snap _. snapshot_timestamp snap)
           ((init (Some seeded_snapshot))\<lparr>events :=
              [apr_event 100 31537000 ''0x1'' ''0x64'' ''0x32'',
               apr_event 100 31537000 ''0x2'' ''0x64'' ''0x32'',
               apr_event 101 63073000 ''0x1'' ''0x64'' ''0x32'']\<rparr>))
        ''ETH''
       = [(51 / 200, 51 / 100), (13 / 50, 13 / 25)]"
proof -
  let ?evs = "[apr_event 100 31537000 ''0x1'' ''0x64'' ''0x32'',
               apr_event 100 31537000 ''0x2'' ''0x64'' ''0x32'',
               apr_event 101 63073000 ''0x1'' ''0x64'' ''0x32'']"
  let ?self = "(init (Some seeded_snapshot))\<lparr>events := ?evs\<rparr>"
  let ?rs = "\<lambda>snap (_::string). snapshot_timestamp snap"
  have e: "events ?self = ?evs" by simp
  have h1: "list_all nonneg_bps ?evs" by code_simp
  have h2: "sorted (map timestamp ?evs)" by (simp add: apr_event_sel)
  have h3: "\<forall>e\<in>set ?evs. \<forall>name. seed_timestamp ?rs ?self name \<le> timestamp e"
    by (simp add: seed_timestamp_def init_def seeded_snapshot_def apr_event_sel)
  have r0: "representable 0" by (simp add: representable_def round_to_context_def)
  have r4: "representable (1 / 4)" by code_simp
  have r2: "representable (1 / 2)" by code_simp
  have sc: "\<And>name. seed_collateral ?self name = (if name = ''ETH'' then 1 / 4 else 0)"
    and sd: "\<And>name. seed_debt ?self name = (if name = ''ETH'' then 1 / 2 else 0)"
    by (simp_all add: seed_collateral_def seed_debt_def init_def seeded_snapshot_def)
  have h4: "\<forall>name. representable (seed_collateral ?self name)
                  \<and> representable (seed_debt ?self name)"
    unfolding sc sd using r0 r4 r2 by simp
  have ew: "list_all (event_within 100000000) ?evs" by code_simp
  have wl: "within_limits 100000000 17 ?rs ?self"
    unfolding within_limits_def sc sd using ew
    by (simp add: EMAX_def seed_timestamp_def init_def seeded_snapshot_def)
  have series: "accumulator_series (calculate_interest_rates example_tokens ?rs ?self) ''ETH''
                  = [(51 / 200, 51 / 100), (13 / 50, 13 / 25)]"
    by code_simp
  from accumulators_never_below_seed[of ?self ?rs example_tokens 100000000 17]
    h1 h2 h3 h4 wl
  obtain self' blocks_data where
    c: "calculate_interest_rates example_tokens ?rs ?self = Inr (self', blocks_data)"
    and b: "\<forall>snap\<in>set blocks_data. \<forall>name.
              seed_collateral ?self name \<le> collateral snap name
              \<and> seed_debt ?self name \<le> debt snap name"
    unfolding e by blast
  have "list_all (\<lambda>snap. 1 / 4 \<le> collateral snap ''ETH'' \<and> 1 / 2 \<le> debt snap ''ETH'')
                 blocks_data"
    unfolding list_all_iff
  proof
    fix snap
    assume "snap \<in> set blocks_data"
    with b have "seed_collateral ?self ''ETH'' \<le> collateral snap ''ETH''
                 \<and> seed_debt ?self ''ETH'' \<le> debt snap ''ETH''"
      by blast
    then show "1 / 4 \<le> collateral snap ''ETH'' \<and> 1 / 2 \<le> debt snap ''ETH''"
      unfolding sc sd by simp
  qed
  with c h1 h2 r4 r2 wl series show ?thesis by blast
qed

text \<open>
  C7 as stated fails on the code. A fresh run (seed accumulators 0) with two ETH events
  of non-negative rates, the second in a later block but with a timestamp one year
  earlier than the first: \<^verbatim>\<open>seconds_passed\<close> is negative and the second snapshot has
  collateral -0.005 and debt -0.01, below the seed.
\<close>

theorem accumulators_counterexample:
  "list_all nonneg_bps
     [apr_event 100 63073000 ''0x1'' ''0x64'' ''0x32'',
      apr_event 101 31537000 ''0x1'' ''0x64'' ''0x32'']
   \<and> accumulator_series
        (calculate_interest_rates example_tokens (\<lambda>_ _. 0)
           ((init None)\<lparr>events :=
              [apr_event 100 63073000 ''0x1'' ''0x64'' ''0x32'',
               apr_event 101 31537000 ''0x1'' ''0x64'' ''0x32'']\<rparr>))
        ''ETH''
       = [(0, 0), (- 1 / 200, - 1 / 100)]"
  by code_simp

subsection \<open>Restart between two windows\<close>

text \<open>
  A simulation: two folds over the same events, started from states that carry the same
  accrual data for the tokens of those events and from objects that both hold a last
  snapshot, raise the same exception or end in states that carry the same accrual data.
\<close>

lemma event_effect_sim:
  assumes "same_accrual T a b" and "token_of tm e \<in> T \<or> token_of tm e = []"
  shows "rel_sum (=) (same_accrual T) (event_effect tm nl a e) (event_effect tm nl b e)"
proof (cases "getitem (data e) 0")
  case (Inl err)
  then show ?thesis by (simp add: event_effect_def)
next
  case (Inr address)
  note eff = event_effect_resolved[OF Inr]
  show ?thesis
  proof (cases "token_of tm e = [] \<or> key_name e \<noteq> ''current_apr''")
    case True
    then show ?thesis
      using assms(1) unfolding eff by (auto simp: same_accrual_def)
  next
    case False
    with assms(2) have inT: "token_of tm e \<in> T" by simp
    with assms(1)
    have ts: "token_timestamps a (token_of tm e) = token_timestamps b (token_of tm e)"
      and cc: "cumulative_collateral a = cumulative_collateral b"
      and cd: "cumulative_debt a = cumulative_debt b"
      by (simp_all add: same_accrual_def)
    show ?thesis
      using assms(1) False unfolding eff ts
      by (auto simp: same_accrual_def update_state_cumulative_data_def cc cd
          split: sum.splits)
  qed
qed

lemma process_event_sim:
  assumes "same_accrual T a b"
    and "last_block_data self_a \<noteq> None" and "last_block_data self_b \<noteq> None"
    and "token_of tm e \<in> T \<or> token_of tm e = []"
  shows "rel_sum (=) (same_progress T)
           (process_event tm self_a a blocks_a e) (process_event tm self_b b blocks_b e)"
proof -
  have na: "(last_block_data (fst (emit_on_transition self_a a blocks_a e)) = None) = False"
    using emit_keeps_last_block_data[OF assms(2)] by simp
  have nb: "(last_block_data (fst (emit_on_transition self_b b blocks_b e)) = None) = False"
    using emit_keeps_last_block_data[OF assms(3)] by simp
  from event_effect_sim[OF assms(1,4), of False]
  show ?thesis
    unfolding process_event_effect na nb
    using emit_keeps_last_block_data[OF assms(2), of a blocks_a e]
      emit_keeps_last_block_data[OF assms(3), of b blocks_b e]
    by (auto simp: same_progress_def rel_sum.simps)
qed

lemma fold_events_sim:
  assumes "same_accrual T a b"
    and "last_block_data self_a \<noteq> None" and "last_block_data self_b \<noteq> None"
    and "\<forall>e\<in>set evs. token_of tm e \<in> T \<or> token_of tm e = []"
  shows "rel_sum (=) (same_progress T)
           (fold_events tm self_a a blocks_a evs) (fold_events tm self_b b blocks_b evs)"
  using assms
proof (induction evs arbitrary: self_a a blocks_a self_b b blocks_b)
  case Nil
  then show ?case by (simp add: same_progress_def)
next
  case (Cons e es)
  have tk: "token_of tm e \<in> T \<or> token_of tm e = []" using Cons.prems(4) by simp
  have rest: "\<forall>e\<in>set es. token_of tm e \<in> T \<or> token_of tm e = []"
    using Cons.prems(4) by simp
  note ps = process_event_sim[OF Cons.prems(1-3) tk, of blocks_a blocks_b]
  show ?case
  proof (cases "process_event tm self_a a blocks_a e")
    case (Inl err)
    with ps have "process_event tm self_b b blocks_b e = Inl err"
      by (auto simp: rel_sum.simps)
    with Inl show ?thesis by simp
  next
    case (Inr x)
    with ps obtain y where
      y: "process_event tm self_b b blocks_b e = Inr y" and sp: "same_progress T x y"
      by (auto simp: rel_sum.simps)
    obtain sa' a' ba' where x': "x = (sa', a', ba')" by (cases x) auto
    obtain sb' b' bb' where y': "y = (sb', b', bb')" by (cases y) auto
    from sp have sp': "same_accrual T a' b'" "last_block_data sa' \<noteq> None"
      "last_block_data sb' \<noteq> None"
      unfolding x' y' same_progress_def by simp_all
    from Cons.IH[OF sp' rest, of ba' bb'] show ?thesis
      using Inr y unfolding x' y' by simp
  qed
qed

lemma fold_events_append:
  "fold_events tm self st blocks (xs @ ys) =
     (case fold_events tm self st blocks xs of
        Inl err \<Rightarrow> Inl err
      | Inr (self1, st1, blocks1) \<Rightarrow> fold_events tm self1 st1 blocks1 ys)"
  by (induction xs arbitrary: self st blocks) (auto split: sum.splits)

lemma same_accrual_refl: "same_accrual T a a"
  by (simp add: same_accrual_def)

lemma same_accrual_trans:
  "same_accrual UNIV a b \<Longrightarrow> same_accrual T b c \<Longrightarrow> same_accrual T a c"
  by (simp add: same_accrual_def)

lemma calculate_with_state_Some:
  assumes "calculate_with_state tm rs self = Inr (self1, Some st1, blocks1)"
  shows "\<exists>e es selfm blocksm.
           events self = e # es
           \<and> fold_events tm self
                 (InterestRateState_init rs (block_number e) (last_block_data self)) []
                 (events self) = Inr (selfm, st1, blocksm)
           \<and> self1 = selfm\<lparr>last_block_data := Some (build_interest_rate_model st1 HASHSTACK_ID)\<rparr>
           \<and> blocks1 = blocksm @ [build_interest_rate_model st1 HASHSTACK_ID]"
  using assms
  unfolding calculate_with_state_def Let_def add_block_data_def
  by (auto split: list.splits sum.splits)

lemma calculate_of_fold:
  assumes "events self = e # es"
    and "fold_events tm self
           (InterestRateState_init rs (block_number e) (last_block_data self)) []
           (events self) = r"
  shows "calculate_interest_rates tm rs self =
     (case r of
        Inl err \<Rightarrow> Inl err
      | Inr (selfm, st', blocksm) \<Rightarrow>
          Inr (selfm\<lparr>last_block_data := Some (build_interest_rate_model st' HASHSTACK_ID)\<rparr>,
               blocksm @ [build_interest_rate_model st' HASHSTACK_ID]))"
  using assms
  unfolding calculate_interest_rates_def calculate_with_state_def Let_def add_block_data_def
  by (auto split: sum.splits)

lemma final_accumulators_fold:
  "final_accumulators
     (case r of
        Inl err \<Rightarrow> Inl err
      | Inr (selfm, st', blocksm) \<Rightarrow>
          Inr (selfm\<lparr>last_block_data := Some (build_interest_rate_model st' HASHSTACK_ID)\<rparr>,
               blocksm @ [build_interest_rate_model st' HASHSTACK_ID])) name =
     (case r of
        Inl err \<Rightarrow> Inl err
      | Inr (selfm, st', blocksm) \<Rightarrow>
          Inr (cumulative_collateral st' name, cumulative_debt st' name))"
  by (auto simp: final_accumulators_def build_interest_rate_model_def split: sum.splits)

lemma same_progress_final:
  assumes "rel_sum (=) (same_progress T) ra rb"
  shows "(case ra of
            Inl err \<Rightarrow> Inl err
          | Inr (selfm, st', blocksm) \<Rightarrow>
              Inr (cumulative_collateral st' name, cumulative_debt st' name)) =
         (case rb of
            Inl err \<Rightarrow> Inl err
          | Inr (selfm, st', blocksm) \<Rightarrow>
              Inr (cumulative_collateral st' name, cumulative_debt st' name))"
  using assms
  by (auto simp: rel_sum.simps same_progress_def same_accrual_def)

lemma two_pass_one_pass_returned:
  assumes seeded: "last_block_data self \<noteq> None"
    and first: "calculate_with_state tm rs (self\<lparr>events := ev1\<rparr>) = Inr (self1, Some st1, blocks1)"
    and agree: "\<forall>e\<in>set ev2. token_of tm e \<noteq> [] \<longrightarrow>
                  rs (build_interest_rate_model st1 HASHSTACK_ID) (token_of tm e) =
                  token_timestamps st1 (token_of tm e)"
  shows "final_accumulators (two_pass tm rs self ev1 ev2) name =
         final_accumulators (one_pass tm rs self ev1 ev2) name"
proof -
  let ?snap1 = "build_interest_rate_model st1 HASHSTACK_ID"
  from calculate_with_state_Some[OF first] obtain e es selfm blocksm where
    ev1: "ev1 = e # es"
    and f1: "fold_events tm (self\<lparr>events := ev1\<rparr>)
               (InterestRateState_init rs (block_number e) (last_block_data self)) [] ev1 =
             Inr (selfm, st1, blocksm)"
    and self1: "self1 = selfm\<lparr>last_block_data := Some ?snap1\<rparr>"
    by auto
  let ?st0 = "InterestRateState_init rs (block_number e) (last_block_data self)"
  have fw1: "fold_window tm rs self ev1 = Inr (self1, blocks1)"
    using first by (simp add: fold_window_def calculate_interest_rates_def)
  have two: "two_pass tm rs self ev1 ev2 = fold_window tm rs self1 ev2"
    by (simp add: two_pass_def fw1)
  have "rel_sum (=) (same_progress UNIV)
          (fold_events tm (self\<lparr>events := ev1 @ ev2\<rparr>) ?st0 [] ev1)
          (fold_events tm (self\<lparr>events := ev1\<rparr>) ?st0 [] ev1)"
    by (rule fold_events_sim) (simp_all add: same_accrual_refl seeded)
  then obtain sm' stm' bm' where
    g1: "fold_events tm (self\<lparr>events := ev1 @ ev2\<rparr>) ?st0 [] ev1 = Inr (sm', stm', bm')"
    and rel: "same_accrual UNIV stm' st1" and lsm: "last_block_data sm' \<noteq> None"
    unfolding f1 by (auto simp: rel_sum.simps same_progress_def)
  have "calculate_interest_rates tm rs (self\<lparr>events := ev1 @ ev2\<rparr>) =
          (case fold_events tm sm' stm' bm' ev2 of
             Inl err \<Rightarrow> Inl err
           | Inr (selfm, st', blocksm) \<Rightarrow>
               Inr (selfm\<lparr>last_block_data := Some (build_interest_rate_model st' HASHSTACK_ID)\<rparr>,
                    blocksm @ [build_interest_rate_model st' HASHSTACK_ID]))"
  proof (rule calculate_of_fold[where e = e and es = "es @ ev2"])
    show "events (self\<lparr>events := ev1 @ ev2\<rparr>) = e # es @ ev2"
      by (simp add: ev1)
    show "fold_events tm (self\<lparr>events := ev1 @ ev2\<rparr>)
            (InterestRateState_init rs (block_number e)
               (last_block_data (self\<lparr>events := ev1 @ ev2\<rparr>))) []
            (events (self\<lparr>events := ev1 @ ev2\<rparr>)) =
          fold_events tm sm' stm' bm' ev2"
      by (simp add: fold_events_append g1)
  qed
  then have one: "final_accumulators (one_pass tm rs self ev1 ev2) name =
          (case fold_events tm sm' stm' bm' ev2 of
             Inl err \<Rightarrow> Inl err
           | Inr (selfm, st', blocksm) \<Rightarrow>
               Inr (cumulative_collateral st' name, cumulative_debt st' name))"
    by (simp add: one_pass_def fold_window_def final_accumulators_fold)
  show ?thesis
  proof (cases ev2)
    case Nil
    have "fold_window tm rs self1 [] = Inr (self1\<lparr>events := []\<rparr>, [])"
      by (simp add: fold_window_def calculate_interest_rates_def calculate_with_state_def)
    then have "final_accumulators (fold_window tm rs self1 []) name =
                 Inr (cumulative_collateral st1 name, cumulative_debt st1 name)"
      by (simp add: final_accumulators_def self1 build_interest_rate_model_def)
    then have "final_accumulators (two_pass tm rs self ev1 ev2) name =
                 Inr (cumulative_collateral st1 name, cumulative_debt st1 name)"
      using two unfolding Nil by simp
    moreover have "final_accumulators (one_pass tm rs self ev1 ev2) name =
                 Inr (cumulative_collateral st1 name, cumulative_debt st1 name)"
      using one rel unfolding Nil by (simp add: same_accrual_def)
    ultimately show ?thesis by simp
  next
    case (Cons e2 es2)
    define T where "T = {n. n \<noteq> [] \<and> (\<exists>e\<in>set ev2. token_of tm e = n)}"
    let ?st2 = "InterestRateState_init rs (block_number e2) (Some ?snap1)"
    have tk: "\<forall>e\<in>set ev2. token_of tm e \<in> T \<or> token_of tm e = []"
      by (auto simp: T_def)
    have "same_accrual T st1 ?st2"
      using agree
      by (auto simp: same_accrual_def InterestRateState_init_def T_def
          build_interest_rate_model_def)
    with rel have sa: "same_accrual T stm' ?st2" by (rule same_accrual_trans)
    have sim2: "rel_sum (=) (same_progress T)
            (fold_events tm sm' stm' bm' ev2)
            (fold_events tm (self1\<lparr>events := ev2\<rparr>) ?st2 [] ev2)"
      by (rule fold_events_sim[OF sa lsm _ tk]) (simp add: self1)
    have "calculate_interest_rates tm rs (self1\<lparr>events := ev2\<rparr>) =
          (case fold_events tm (self1\<lparr>events := ev2\<rparr>) ?st2 [] ev2 of
             Inl err \<Rightarrow> Inl err
           | Inr (selfm, st', blocksm) \<Rightarrow>
               Inr (selfm\<lparr>last_block_data := Some (build_interest_rate_model st' HASHSTACK_ID)\<rparr>,
                    blocksm @ [build_interest_rate_model st' HASHSTACK_ID]))"
      by (rule calculate_of_fold[where e = e2 and es = es2]) (simp_all add: Cons self1)
    then have "final_accumulators (two_pass tm rs self ev1 ev2) name =
          (case fold_events tm (self1\<lparr>events := ev2\<rparr>) ?st2 [] ev2 of
             Inl err \<Rightarrow> Inl err
           | Inr (selfm, st', blocksm) \<Rightarrow>
               Inr (cumulative_collateral st' name, cumulative_debt st' name))"
      unfolding two by (simp add: fold_window_def final_accumulators_fold)
    with one same_progress_final[OF sim2, of name] show ?thesis by simp
  qed
qed

lemma two_pass_one_pass_raised:
  assumes seeded: "last_block_data self \<noteq> None"
    and first: "calculate_with_state tm rs (self\<lparr>events := ev1\<rparr>) = Inl err"
  shows "two_pass tm rs self ev1 ev2 = Inl err" and "one_pass tm rs self ev1 ev2 = Inl err"
proof -
  show "two_pass tm rs self ev1 ev2 = Inl err"
    using first by (simp add: two_pass_def fold_window_def calculate_interest_rates_def)
  from first obtain e es where ev1: "ev1 = e # es"
    by (cases ev1) (simp_all add: calculate_with_state_def)
  let ?st0 = "InterestRateState_init rs (block_number e) (last_block_data self)"
  from first have f1: "fold_events tm (self\<lparr>events := ev1\<rparr>) ?st0 [] ev1 = Inl err"
    unfolding calculate_with_state_def Let_def add_block_data_def
    by (auto simp: ev1 split: sum.splits)
  have "rel_sum (=) (same_progress UNIV)
          (fold_events tm (self\<lparr>events := ev1 @ ev2\<rparr>) ?st0 [] ev1)
          (fold_events tm (self\<lparr>events := ev1\<rparr>) ?st0 [] ev1)"
    by (rule fold_events_sim) (simp_all add: same_accrual_refl seeded)
  then have g1: "fold_events tm (self\<lparr>events := ev1 @ ev2\<rparr>) ?st0 [] ev1 = Inl err"
    unfolding f1 by (auto simp: rel_sum.simps)
  have "calculate_interest_rates tm rs (self\<lparr>events := ev1 @ ev2\<rparr>) =
          (case (Inl err :: py_error + HashstackV0InterestRate \<times> InterestRateState \<times> InterestRate list) of
             Inl err \<Rightarrow> Inl err
           | Inr (selfm, st', blocksm) \<Rightarrow>
               Inr (selfm\<lparr>last_block_data := Some (build_interest_rate_model st' HASHSTACK_ID)\<rparr>,
                    blocksm @ [build_interest_rate_model st' HASHSTACK_ID]))"
  proof (rule calculate_of_fold[where e = e and es = "es @ ev2"])
    show "events (self\<lparr>events := ev1 @ ev2\<rparr>) = e # es @ ev2"
      by (simp add: ev1)
    show "fold_events tm (self\<lparr>events := ev1 @ ev2\<rparr>)
            (InterestRateState_init rs (block_number e)
               (last_block_data (self\<lparr>events := ev1 @ ev2\<rparr>))) []
            (events (self\<lparr>events := ev1 @ ev2\<rparr>)) = Inl err"
      by (simp add: fold_events_append g1)
  qed
  then show "one_pass tm rs self ev1 ev2 = Inl err"
    by (simp add: one_pass_def fold_window_def)
qed

text \<open>
  C8, as amended. A run over a first window followed by a run over a second window,
  seeded with the last snapshot of the first, ends with the same cumulative
  accumulators for every token (or with the same exception) as one run over the events
  of both windows, when the object holds a persisted snapshot to start from and the
  state of the second run resumes where the first left: each token of the second window
  is given, from the snapshot, the timestamp it had at the end of the first fold.
\<close>

theorem restart_equivalence:
  assumes "last_block_data self \<noteq> None"
    and "resumes_where_left TOKEN_MAPPING resume_timestamps self evs1 evs2"
  shows "final_accumulators (two_pass TOKEN_MAPPING resume_timestamps self evs1 evs2) name =
         final_accumulators (one_pass TOKEN_MAPPING resume_timestamps self evs1 evs2) name"
proof (cases "calculate_with_state TOKEN_MAPPING resume_timestamps (self\<lparr>events := evs1\<rparr>)")
  case (Inl err)
  from two_pass_one_pass_raised[OF assms(1) Inl, of evs2] show ?thesis by simp
next
  case (Inr r)
  obtain self1 sto blocks1 where r: "r = (self1, sto, blocks1)" by (cases r) auto
  show ?thesis
  proof (cases sto)
    case None
    with Inr r have e1: "evs1 = []"
      unfolding calculate_with_state_def Let_def add_block_data_def
      by (auto split: list.splits sum.splits)
    have "fold_window TOKEN_MAPPING resume_timestamps self [] = Inr (self\<lparr>events := []\<rparr>, [])"
      by (simp add: fold_window_def calculate_interest_rates_def calculate_with_state_def)
    moreover have "fold_window TOKEN_MAPPING resume_timestamps (self\<lparr>events := []\<rparr>) evs2 =
                   fold_window TOKEN_MAPPING resume_timestamps self evs2"
      by (simp add: fold_window_def)
    ultimately show ?thesis
      unfolding e1 by (simp add: two_pass_def one_pass_def)
  next
    case (Some st1)
    have first: "calculate_with_state TOKEN_MAPPING resume_timestamps (self\<lparr>events := evs1\<rparr>)
                   = Inr (self1, Some st1, blocks1)"
      using Inr r Some by simp
    have agree: "\<forall>e\<in>set evs2. token_of TOKEN_MAPPING e \<noteq> [] \<longrightarrow>
                  resume_timestamps (build_interest_rate_model st1 HASHSTACK_ID)
                    (token_of TOKEN_MAPPING e) =
                  token_timestamps st1 (token_of TOKEN_MAPPING e)"
      using assms(2) unfolding resumes_where_left_def first
      by (auto simp: list_all_iff)
    from assms(1) first agree show ?thesis by (rule two_pass_one_pass_returned)
  qed
qed

theorem restart_equivalence_witness:
  "last_block_data (init (Some example_snapshot)) \<noteq> None
   \<and> resumes_where_left example_tokens (\<lambda>snap _. snapshot_timestamp snap)
        (init (Some example_snapshot))
        [apr_event 100 31537000 ''0x1'' ''0x64'' ''0x32'']
        [apr_event 200 63073000 ''0x1'' ''0x64'' ''0x32'']
   \<and> final_accumulators
        (two_pass example_tokens (\<lambda>snap _. snapshot_timestamp snap)
           (init (Some example_snapshot))
           [apr_event 100 31537000 ''0x1'' ''0x64'' ''0x32'']
           [apr_event 200 63073000 ''0x1'' ''0x64'' ''0x32'']) ''ETH''
       = Inr (1 / 100, 1 / 50)
   \<and> final_accumulators
        (one_pass example_tokens (\<lambda>snap _. snapshot_timestamp snap)
           (init (Some example_snapshot))
           [apr_event 100 31537000 ''0x1'' ''0x64'' ''0x32'']
           [apr_event 200 63073000 ''0x1'' ''0x64'' ''0x32'']) ''ETH''
       = Inr (1 / 100, 1 / 50)"
proof -
  let ?rs = "\<lambda>snap (_::string). snapshot_timestamp snap"
  let ?ev1 = "[apr_event 100 31537000 ''0x1'' ''0x64'' ''0x32'']"
  let ?ev2 = "[apr_event 200 63073000 ''0x1'' ''0x64'' ''0x32'']"
  have h1: "last_block_data (init (Some example_snapshot)) \<noteq> None"
    by (simp add: init_def)
  have h2: "resumes_where_left example_tokens ?rs (init (Some example_snapshot)) ?ev1 ?ev2"
    by code_simp
  have v: "final_accumulators
             (one_pass example_tokens ?rs (init (Some example_snapshot)) ?ev1 ?ev2) ''ETH''
           = Inr (1 / 100, 1 / 50)"
    by code_simp
  from restart_equivalence[OF h1 h2, of "''ETH''"] v h1 h2 show ?thesis by simp
qed

text \<open>Single events and the example windows, evaluated for every resume rule.\<close>

lemma context_round_zero: "context_round 0 = Inr 0"
  by (simp add: context_round_def round_to_context_def)

lemma accrual_delta_zero: "accrual_delta 0 s = Inr 0"
  by (simp add: accrual_delta_def decimal_mul_def decimal_truediv_def context_round_zero
      SECONDS_IN_YEAR_def)

lemma decimal_add_zero: "decimal_add 0 0 = Inr 0"
  by (simp add: decimal_add_def context_round_zero)

lemma quiet_event_effect:
  assumes "example_tokens a = Some n" and "n \<noteq> []"
  shows "event_effect example_tokens False
           \<lparr>current_block = cb, current_timestamp = ct, token_timestamps = tts,
            cumulative_collateral = (\<lambda>_. 0), cumulative_debt = (\<lambda>_. 0)\<rparr>
           (apr_event b t a ''0x0'' ''0x0'') =
         Inr \<lparr>current_block = b,
              current_timestamp = (if tts n = 0 then ct else t),
              token_timestamps = tts(n := t),
              cumulative_collateral = (\<lambda>_. 0), cumulative_debt = (\<lambda>_. 0)\<rparr>"
  using assms
  by (simp add: event_effect_resolved[OF apr_event_sel(4)] token_of_apr_event apr_event_sel
      int_base16_literals accrual_delta_zero decimal_add_zero update_state_cumulative_data_def
      fun_eq_iff)

lemma rate_event_effect:
  assumes "example_tokens a = Some n" and "n \<noteq> []" and "tts n \<noteq> 0"
    and "accrual_delta 50 (of_int (t - tts n)) = Inr cc"
    and "accrual_delta 100 (of_int (t - tts n)) = Inr dc"
    and "decimal_add (c n) cc = Inr c'" and "decimal_add (d n) dc = Inr d'"
  shows "event_effect example_tokens False
           \<lparr>current_block = cb, current_timestamp = ct, token_timestamps = tts,
            cumulative_collateral = c, cumulative_debt = d\<rparr>
           (apr_event b t a ''0x64'' ''0x32'') =
         Inr \<lparr>current_block = b, current_timestamp = t,
              token_timestamps = tts(n := t),
              cumulative_collateral = c(n := c'),
              cumulative_debt = d(n := d')\<rparr>"
  using assms
  by (simp add: event_effect_resolved[OF apr_event_sel(4)] token_of_apr_event apr_event_sel
      int_base16_literals update_state_cumulative_data_def)

lemma quiet_process_event:
  assumes "last_block_data self \<noteq> None" and "example_tokens a = Some n" and "n \<noteq> []"
  shows "process_event example_tokens self
           \<lparr>current_block = b, current_timestamp = ct, token_timestamps = tts,
            cumulative_collateral = (\<lambda>_. 0), cumulative_debt = (\<lambda>_. 0)\<rparr>
           blocks (apr_event b t a ''0x0'' ''0x0'') =
         Inr (self,
              \<lparr>current_block = b,
               current_timestamp = (if tts n = 0 then ct else t),
               token_timestamps = tts(n := t),
               cumulative_collateral = (\<lambda>_. 0), cumulative_debt = (\<lambda>_. 0)\<rparr>,
              blocks)"
proof -
  let ?st = "\<lparr>current_block = b, current_timestamp = ct, token_timestamps = tts,
              cumulative_collateral = (\<lambda>_. 0), cumulative_debt = (\<lambda>_. 0)\<rparr>"
  have em: "emit_on_transition self ?st blocks (apr_event b t a ''0x0'' ''0x0'') = (self, blocks)"
    by (simp add: emit_on_transition_def apr_event_sel)
  have nl: "(last_block_data self = None) = False"
    using assms(1) by simp
  show ?thesis
    unfolding process_event_effect em fst_conv snd_conv nl quiet_event_effect[OF assms(2,3)]
    by simp
qed

lemma quiet_window_fold:
  assumes "last_block_data self \<noteq> None"
  shows "fold_events example_tokens self
           \<lparr>current_block = 100, current_timestamp = ct, token_timestamps = tts,
            cumulative_collateral = (\<lambda>_. 0), cumulative_debt = (\<lambda>_. 0)\<rparr>
           blocks (quiet_window t) =
         Inr (self,
              \<lparr>current_block = 100, current_timestamp = 50000000,
               token_timestamps = tts(''ETH'' := t, ''USDC'' := 50000000),
               cumulative_collateral = (\<lambda>_. 0), cumulative_debt = (\<lambda>_. 0)\<rparr>,
              blocks)"
  by (simp add: quiet_window_def
      quiet_process_event[OF assms example_tokens_simps(1)]
      quiet_process_event[OF assms example_tokens_simps(2)])

lemma rate_window_fold:
  assumes "last_block_data self \<noteq> None" and "tts ''ETH'' \<noteq> 0"
    and "accrual_delta 50 (of_int (63073000 - tts ''ETH'')) = Inr cc"
    and "accrual_delta 100 (of_int (63073000 - tts ''ETH'')) = Inr dc"
    and "decimal_add (c ''ETH'') cc = Inr c'" and "decimal_add (d ''ETH'') dc = Inr d'"
  shows "\<exists>self' blocks'.
           fold_events example_tokens self
             \<lparr>current_block = cb, current_timestamp = ct, token_timestamps = tts,
              cumulative_collateral = c, cumulative_debt = d\<rparr>
             blocks rate_window =
           Inr (self',
                \<lparr>current_block = 200, current_timestamp = 63073000,
                 token_timestamps = tts(''ETH'' := 63073000),
                 cumulative_collateral = c(''ETH'' := c'),
                 cumulative_debt = d(''ETH'' := d')\<rparr>,
                blocks')"
proof -
  let ?st = "\<lparr>current_block = cb, current_timestamp = ct, token_timestamps = tts,
              cumulative_collateral = c, cumulative_debt = d\<rparr>"
  let ?e = "apr_event 200 63073000 ''0x1'' ''0x64'' ''0x32''"
  have nl: "(last_block_data (fst (emit_on_transition self ?st blocks ?e)) = None) = False"
    using emit_keeps_last_block_data[OF assms(1)] by simp
  have ne: "''ETH'' \<noteq> []" by simp
  note eff = rate_event_effect[where tts = tts and n = "''ETH''" and a = "''0x1''"
      and t = 63073000 and c = c and d = d,
      OF example_tokens_simps(1) ne assms(2) assms(3) assms(4) assms(5) assms(6)]
  show ?thesis
    unfolding rate_window_def fold_events.simps process_event_effect nl eff
    by simp
qed

lemma init_example_snapshot:
  "InterestRateState_init rs b (Some \<lparr>block = b0, snapshot_timestamp = t0,
      collateral = (\<lambda>_. 0), debt = (\<lambda>_. 0), protocol_id = p\<rparr>) =
     \<lparr>current_block = b, current_timestamp = t0,
      token_timestamps = rs \<lparr>block = b0, snapshot_timestamp = t0,
         collateral = (\<lambda>_. 0), debt = (\<lambda>_. 0), protocol_id = p\<rparr>,
      cumulative_collateral = (\<lambda>_. 0), cumulative_debt = (\<lambda>_. 0)\<rparr>"
  by (simp add: InterestRateState_init_def)

lemma final_accumulators_fold_window:
  assumes "evs = e # es"
  shows "final_accumulators (fold_window tm rs self evs) name =
     (case fold_events tm (self\<lparr>events := evs\<rparr>)
             (InterestRateState_init rs (block_number e) (last_block_data self)) [] evs of
        Inl err \<Rightarrow> Inl err
      | Inr (selfm, st', blocksm) \<Rightarrow>
          Inr (cumulative_collateral st' name, cumulative_debt st' name))"
proof -
  have "calculate_interest_rates tm rs (self\<lparr>events := evs\<rparr>) =
     (case fold_events tm (self\<lparr>events := evs\<rparr>)
             (InterestRateState_init rs (block_number e) (last_block_data self)) [] evs of
        Inl err \<Rightarrow> Inl err
      | Inr (selfm, st', blocksm) \<Rightarrow>
          Inr (selfm\<lparr>last_block_data := Some (build_interest_rate_model st' HASHSTACK_ID)\<rparr>,
               blocksm @ [build_interest_rate_model st' HASHSTACK_ID]))"
    by (rule calculate_of_fold[where e = e and es = es]) (simp_all add: assms)
  then show ?thesis
    by (simp add: fold_window_def final_accumulators_fold)
qed

lemma one_pass_quiet_rate:
  assumes "t \<noteq> 0"
    and "accrual_delta 50 (of_int (63073000 - t)) = Inr cc"
    and "accrual_delta 100 (of_int (63073000 - t)) = Inr dc"
    and "decimal_add 0 cc = Inr c'" and "decimal_add 0 dc = Inr d'"
  shows "final_accumulators
           (one_pass example_tokens rs (init (Some example_snapshot)) (quiet_window t)
              rate_window) ''ETH'' =
         Inr (c', d')"
proof -
  let ?self = "(init (Some example_snapshot))\<lparr>events := quiet_window t @ rate_window\<rparr>"
  let ?evs = "quiet_window t @ rate_window"
  let ?tts = "(rs example_snapshot)(''ETH'' := t, ''USDC'' := 50000000)"
  have nn: "last_block_data ?self \<noteq> None" by (simp add: init_def)
  have hd: "?evs = apr_event 100 t ''0x1'' ''0x0'' ''0x0'' #
              ([apr_event 100 40000000 ''0x2'' ''0x0'' ''0x0'',
                apr_event 100 50000000 ''0x2'' ''0x0'' ''0x0''] @ rate_window)"
    by (simp add: quiet_window_def)
  let ?st0 = "InterestRateState_init rs 100 (last_block_data (init (Some example_snapshot)))"
  have st0: "?st0 = \<lparr>current_block = 100, current_timestamp = 1000,
                      token_timestamps = rs example_snapshot,
                      cumulative_collateral = (\<lambda>_. 0), cumulative_debt = (\<lambda>_. 0)\<rparr>"
    by (simp add: init_def example_snapshot_def init_example_snapshot)
  have eth: "?tts ''ETH'' = t" by simp
  have h2: "?tts ''ETH'' \<noteq> 0" using assms(1) by simp
  have h3: "accrual_delta 50 (of_int (63073000 - ?tts ''ETH'')) = Inr cc"
    unfolding eth by (rule assms(2))
  have h4: "accrual_delta 100 (of_int (63073000 - ?tts ''ETH'')) = Inr dc"
    unfolding eth by (rule assms(3))
  have h5: "decimal_add ((\<lambda>_. 0 :: rat) ''ETH'') cc = Inr c'" using assms(4) by simp
  have h6: "decimal_add ((\<lambda>_. 0 :: rat) ''ETH'') dc = Inr d'" using assms(5) by simp
  from rate_window_fold[where self = ?self and tts = ?tts and cb = 100 and ct = 50000000
      and c = "\<lambda>_. 0" and d = "\<lambda>_. 0" and blocks = "[]", OF nn h2 h3 h4 h5 h6]
  obtain self' blocks' where
    r: "fold_events example_tokens ?self
          \<lparr>current_block = 100, current_timestamp = 50000000,
           token_timestamps = ?tts,
           cumulative_collateral = (\<lambda>_. 0), cumulative_debt = (\<lambda>_. 0)\<rparr>
          [] rate_window =
        Inr (self',
             \<lparr>current_block = 200, current_timestamp = 63073000,
              token_timestamps = ?tts(''ETH'' := 63073000),
              cumulative_collateral = (\<lambda>_. 0)(''ETH'' := c'),
              cumulative_debt = (\<lambda>_. 0)(''ETH'' := d')\<rparr>,
             blocks')"
    by blast
  have "fold_events example_tokens ?self ?st0 [] ?evs =
        Inr (self',
             \<lparr>current_block = 200, current_timestamp = 63073000,
              token_timestamps = ?tts(''ETH'' := 63073000),
              cumulative_collateral = (\<lambda>_. 0)(''ETH'' := c'),
              cumulative_debt = (\<lambda>_. 0)(''ETH'' := d')\<rparr>,
             blocks')"
    unfolding st0 fold_events_append quiet_window_fold[OF nn] using r by simp
  then show ?thesis
    unfolding one_pass_def final_accumulators_fold_window[OF hd] apr_event_sel
    by simp
qed

lemma quiet_fold_window:
  "fold_window example_tokens rs (init (Some example_snapshot)) (quiet_window t) =
     Inr ((init (Some example_snapshot))
            \<lparr>events := quiet_window t,
             last_block_data :=
               Some \<lparr>block = 100, snapshot_timestamp = 50000000, collateral = (\<lambda>_. 0),
                     debt = (\<lambda>_. 0), protocol_id = HASHSTACK_ID\<rparr>\<rparr>,
          [\<lparr>block = 100, snapshot_timestamp = 50000000, collateral = (\<lambda>_. 0),
            debt = (\<lambda>_. 0), protocol_id = HASHSTACK_ID\<rparr>])"
proof -
  let ?self = "(init (Some example_snapshot))\<lparr>events := quiet_window t\<rparr>"
  have nn: "last_block_data ?self \<noteq> None" by (simp add: init_def)
  have hd: "events ?self = apr_event 100 t ''0x1'' ''0x0'' ''0x0'' #
              [apr_event 100 40000000 ''0x2'' ''0x0'' ''0x0'',
               apr_event 100 50000000 ''0x2'' ''0x0'' ''0x0'']"
    by (simp add: quiet_window_def)
  have f: "fold_events example_tokens ?self
             (InterestRateState_init rs (block_number (apr_event 100 t ''0x1'' ''0x0'' ''0x0''))
                (last_block_data ?self)) [] (events ?self) =
           Inr (?self,
                \<lparr>current_block = 100, current_timestamp = 50000000,
                 token_timestamps = (rs example_snapshot)(''ETH'' := t, ''USDC'' := 50000000),
                 cumulative_collateral = (\<lambda>_. 0), cumulative_debt = (\<lambda>_. 0)\<rparr>,
                [])"
    using quiet_window_fold[OF nn, of 1000 "rs example_snapshot" "[]" t]
    by (simp add: apr_event_sel init_def example_snapshot_def init_example_snapshot)
  from calculate_of_fold[OF hd f] show ?thesis
    by (simp add: fold_window_def build_interest_rate_model_def)
qed

lemma two_pass_quiet:
  "two_pass example_tokens rs (init (Some example_snapshot)) (quiet_window t) evs2 =
     fold_window example_tokens rs
       ((init (Some example_snapshot))
          \<lparr>last_block_data :=
             Some \<lparr>block = 100, snapshot_timestamp = 50000000, collateral = (\<lambda>_. 0),
                   debt = (\<lambda>_. 0), protocol_id = HASHSTACK_ID\<rparr>\<rparr>) evs2"
  by (simp add: two_pass_def quiet_fold_window) (simp add: fold_window_def)

lemma year_deltas:
  "accrual_delta 50 (of_int (63073000 - 31537000)) = Inr (1 / 200)"
  "accrual_delta 100 (of_int (63073000 - 31537000)) = Inr (1 / 100)"
  "accrual_delta 50 (of_int (63073000 - 1000)) = Inr (1 / 100)"
  "accrual_delta 100 (of_int (63073000 - 1000)) = Inr (1 / 50)"
  "decimal_add 0 (1 / 200) = Inr (1 / 200)"
  "decimal_add 0 (1 / 100) = Inr (1 / 100)"
  "decimal_add 0 (1 / 50) = Inr (1 / 50)"
  by code_simp+

text \<open>
  C8 as stated fails on the code, whatever timestamps the constructor derives from the
  snapshot. Two histories start from the same persisted snapshot and differ only in the
  timestamp of the ETH event of the first window, 31537000 or 1000; two USDC events
  follow it, so both first runs end with the same last snapshot (block 100, timestamp
  50000000, accumulators 0): the snapshot keeps no timestamp per token. The second
  window has one ETH event at timestamp 63073000. In one pass ETH accrues over one
  year in the first history (0.005 and 0.01) and over two years in the second (0.01
  and 0.02); in two passes both histories give the same result, so at least one of
  them departs from the single pass.
\<close>

theorem restart_counterexample:
  "\<forall>resume_timestamps.
     final_accumulators
       (one_pass example_tokens resume_timestamps (init (Some example_snapshot))
          (quiet_window 31537000) rate_window) ''ETH''
      = Inr (1 / 200, 1 / 100)
     \<and> final_accumulators
         (one_pass example_tokens resume_timestamps (init (Some example_snapshot))
            (quiet_window 1000) rate_window) ''ETH''
        = Inr (1 / 100, 1 / 50)
     \<and> final_accumulators
         (two_pass example_tokens resume_timestamps (init (Some example_snapshot))
            (quiet_window 31537000) rate_window) ''ETH''
        = final_accumulators
            (two_pass example_tokens resume_timestamps (init (Some example_snapshot))
               (quiet_window 1000) rate_window) ''ETH''
     \<and> \<not> (final_accumulators
              (two_pass example_tokens resume_timestamps (init (Some example_snapshot))
                 (quiet_window 31537000) rate_window) ''ETH''
             = final_accumulators
                 (one_pass example_tokens resume_timestamps (init (Some example_snapshot))
                    (quiet_window 31537000) rate_window) ''ETH''
           \<and> final_accumulators
                (two_pass example_tokens resume_timestamps (init (Some example_snapshot))
                   (quiet_window 1000) rate_window) ''ETH''
               = final_accumulators
                   (one_pass example_tokens resume_timestamps (init (Some example_snapshot))
                      (quiet_window 1000) rate_window) ''ETH'')"
proof
  fix rs :: "InterestRate \<Rightarrow> string \<Rightarrow> int"
  let ?self = "init (Some example_snapshot)"
  have a: "final_accumulators
             (one_pass example_tokens rs ?self (quiet_window 31537000) rate_window) ''ETH''
           = Inr (1 / 200, 1 / 100)"
    by (rule one_pass_quiet_rate[OF _ year_deltas(1) year_deltas(2) year_deltas(5)
          year_deltas(6)]) simp
  have b: "final_accumulators
             (one_pass example_tokens rs ?self (quiet_window 1000) rate_window) ''ETH''
           = Inr (1 / 100, 1 / 50)"
    by (rule one_pass_quiet_rate[OF _ year_deltas(3) year_deltas(4) year_deltas(6)
          year_deltas(7)]) simp
  have c: "final_accumulators
             (two_pass example_tokens rs ?self (quiet_window 31537000) rate_window) ''ETH''
           = final_accumulators
               (two_pass example_tokens rs ?self (quiet_window 1000) rate_window) ''ETH''"
    by (simp only: two_pass_quiet)
  show "final_accumulators
          (one_pass example_tokens rs ?self (quiet_window 31537000) rate_window) ''ETH''
         = Inr (1 / 200, 1 / 100)
        \<and> final_accumulators
            (one_pass example_tokens rs ?self (quiet_window 1000) rate_window) ''ETH''
           = Inr (1 / 100, 1 / 50)
        \<and> final_accumulators
            (two_pass example_tokens rs ?self (quiet_window 31537000) rate_window) ''ETH''
           = final_accumulators
               (two_pass example_tokens rs ?self (quiet_window 1000) rate_window) ''ETH''
        \<and> \<not> (final_accumulators
                 (two_pass example_tokens rs ?self (quiet_window 31537000) rate_window) ''ETH''
                = final_accumulators
                    (one_pass example_tokens rs ?self (quiet_window 31537000) rate_window) ''ETH''
              \<and> final_accumulators
                   (two_pass example_tokens rs ?self (quiet_window 1000) rate_window) ''ETH''
                  = final_accumulators
                      (one_pass example_tokens rs ?self (quiet_window 1000) rate_window) ''ETH'')"
    unfolding a b c by simp
qed

end
